theory Spec2Isabelle
  imports Main "HOL-Library.Sublist"
begin

section \<open>Python values used by generate\_tfvars\_interactive.py\<close>

text \<open>
  Strings are lists of characters; the string operations of the source (\<open>strip\<close>, \<open>lower\<close>,
  \<open>title\<close>, \<open>replace\<close>, \<open>split\<close>, \<open>join\<close>, \<open>int\<close>, \<open>str\<close>) are modelled on ASCII
  text. A Python \<open>dict\<close> keeps its keys in insertion order and is an association list with
  distinct keys: \<open>map_of\<close> reads it, \<open>dict_set\<close> is the assignment \<open>d[k] = v\<close>. A key
  that a dict may lack is a field of type \<open>option\<close>; the value of a key that is there has
  the type the program gives it (a string, an integer, a list, a dict). An exception is a
  value of type \<open>error\<close>, and a function that can raise returns \<open>error + 'a\<close>.
\<close>

datatype error = KeyError string | ValueError | EOFError

type_synonym ('k, 'v) dict = "('k \<times> 'v) list"

fun dict_set :: "'k \<Rightarrow> 'v \<Rightarrow> ('k, 'v) dict \<Rightarrow> ('k, 'v) dict" where
  "dict_set k v [] = [(k, v)]"
| "dict_set k v ((k', v') # rest) =
     (if k' = k then (k, v) # rest else (k', v') # dict_set k v rest)"

definition bind_res :: "error + 'a \<Rightarrow> ('a \<Rightarrow> error + 'b) \<Rightarrow> error + 'b" where
  "bind_res m f = (case m of Inl e \<Rightarrow> Inl e | Inr x \<Rightarrow> f x)"

definition subscript :: "string \<Rightarrow> 'a option \<Rightarrow> error + 'a" where
  \<comment> \<open>\<open>d[key]\<close> on a dict whose entry for \<open>key\<close> is the given field\<close>
  "subscript key field = (case field of None \<Rightarrow> Inl (KeyError key) | Some v \<Rightarrow> Inr v)"

fun join :: "string \<Rightarrow> string list \<Rightarrow> string" where
  "join sep [] = []"
| "join sep [x] = x"
| "join sep (x # y # ys) = x @ sep @ join sep (y # ys)"

section \<open>The filter resolver: get\_table\_filter\_columns\<close>

record filter_col =
  column_name :: "string option"
  condition :: "string option"
  operator :: "string option"

definition table_filters :: "(string, string list) dict" where
  "table_filters =
     [(''users'', [''account_name'', ''user_id'', ''status'']),
      (''transactions'', [''client_id'', ''status'', ''region'']),
      (''events'', [''account_name'', ''user_id'']),
      (''orders'', [''client_id'', ''status'']),
      (''logs'', [''account_name'', ''region''])]"

definition format_condition :: "string list \<Rightarrow> string" where
  "format_condition values =
     (if length values = 1 then ''= '' @ [CHR 0x27] @ hd values @ [CHR 0x27]
      else ''IN ('' @ [CHR 0x27] @ join ([CHR 0x27] @ '', '' @ [CHR 0x27]) values
             @ [CHR 0x27] @ '')'')"

text \<open>The loop of lines 87 to 101; \<open>acc\<close> is the list \<open>filter_columns\<close> being appended to.\<close>

fun filter_loop ::
  "(string, string list) dict \<Rightarrow> string list \<Rightarrow> filter_col list \<Rightarrow> filter_col list" where
  "filter_loop global_filters [] acc = acc"
| "filter_loop global_filters (c # cs) acc =
     (case map_of global_filters c of
        None \<Rightarrow> filter_loop global_filters cs acc
      | Some values \<Rightarrow>
          if values \<noteq> []
          then filter_loop global_filters cs
                 (acc @ [\<lparr>column_name = Some c,
                          condition = Some (format_condition values),
                          operator = Some ''AND''\<rparr>])
          else filter_loop global_filters cs acc)"

definition get_table_filter_columns ::
  "string \<Rightarrow> (string, string list) dict \<Rightarrow> filter_col list" where
  "get_table_filter_columns table_name global_filters =
     filter_loop global_filters
       (case map_of table_filters table_name of None \<Rightarrow> [] | Some cs \<Rightarrow> cs) []"

text \<open>The two condition formats as the specification words them.\<close>

definition quoted :: "string \<Rightarrow> string" where
  "quoted v = [CHR 0x27] @ v @ [CHR 0x27]"

definition equality_condition :: "string \<Rightarrow> string" where
  "equality_condition v = ''= '' @ quoted v"

definition in_list_condition :: "string list \<Rightarrow> string" where
  "in_list_condition vs = ''IN ('' @ join '', '' (map quoted vs) @ '')''"

definition has_values :: "(string, string list) dict \<Rightarrow> string \<Rightarrow> bool" where
  "has_values global_filters c =
     (case map_of global_filters c of None \<Rightarrow> False | Some vs \<Rightarrow> vs \<noteq> [])"

section \<open>String operations\<close>

definition uppers :: string where
  "uppers = ''ABCDEFGHIJKLMNOPQRSTUVWXYZ''"

definition lowers :: string where
  "lowers = ''abcdefghijklmnopqrstuvwxyz''"

definition digits :: string where
  "digits = ''0123456789''"

definition is_space :: "char \<Rightarrow> bool" where
  \<comment> \<open>the ASCII characters for which \<open>str.isspace\<close> holds\<close>
  "is_space c =
     (c \<in> set [CHR 0x09, CHR 0x0A, CHR 0x0B, CHR 0x0C, CHR 0x0D,
                CHR 0x1C, CHR 0x1D, CHR 0x1E, CHR 0x1F, CHR 0x20])"

definition is_cased :: "char \<Rightarrow> bool" where
  "is_cased c = (c \<in> set (uppers @ lowers))"

definition lower_char :: "char \<Rightarrow> char" where
  "lower_char c = (case map_of (zip uppers lowers) c of None \<Rightarrow> c | Some l \<Rightarrow> l)"

definition upper_char :: "char \<Rightarrow> char" where
  "upper_char c = (case map_of (zip lowers uppers) c of None \<Rightarrow> c | Some u \<Rightarrow> u)"

definition strip :: "string \<Rightarrow> string" where
  "strip s = rev (dropWhile is_space (rev (dropWhile is_space s)))"

definition lower :: "string \<Rightarrow> string" where
  "lower s = map lower_char s"

text \<open>
  \<open>str.title\<close>: a character that follows a cased character is lowercased, any other one
  is uppercased.
\<close>

fun title_from :: "bool \<Rightarrow> string \<Rightarrow> string" where
  "title_from previous_is_cased [] = []"
| "title_from previous_is_cased (c # cs) =
     (if previous_is_cased then lower_char c else upper_char c) # title_from (is_cased c) cs"

definition title :: "string \<Rightarrow> string" where
  "title s = title_from False s"

definition replace :: "char \<Rightarrow> char \<Rightarrow> string \<Rightarrow> string" where
  \<comment> \<open>\<open>s.replace(old, new)\<close> for one-character \<open>old\<close> and \<open>new\<close>\<close>
  "replace old new s = map (\<lambda>c. if c = old then new else c) s"

fun split :: "char \<Rightarrow> string \<Rightarrow> string list" where
  "split sep [] = [[]]"
| "split sep (c # cs) =
     (if c = sep then [] # split sep cs
      else (case split sep cs of [] \<Rightarrow> [[c]] | w # ws \<Rightarrow> (c # w) # ws))"

text \<open>
  \<open>int(s)\<close> in base ten: optional surrounding whitespace, an optional sign, then digits, where
  single underscores may stand between two digits. Anything else raises \<open>ValueError\<close>.
  Integers are unbounded; the bound that an interpreter may be configured to put on the
  number of digits that \<open>int\<close> and \<open>str\<close> convert is not modelled.
\<close>

fun parse_digits :: "nat \<Rightarrow> bool \<Rightarrow> string \<Rightarrow> nat option" where
  "parse_digits acc after_digit [] = (if after_digit then Some acc else None)"
| "parse_digits acc after_digit (c # cs) =
     (case map_of (zip digits [0 ..< 10]) c of
        Some d \<Rightarrow> parse_digits (10 * acc + d) True cs
      | None \<Rightarrow>
          if c = CHR ''_'' \<and> after_digit \<and> cs \<noteq> [] \<and> hd cs \<in> set digits
          then parse_digits acc False cs
          else None)"

definition py_int :: "string \<Rightarrow> error + int" where
  "py_int s =
     (case strip s of
        [] \<Rightarrow> Inl ValueError
      | c # cs \<Rightarrow>
          if c = CHR ''-'' then
            (case parse_digits 0 False cs of None \<Rightarrow> Inl ValueError | Some n \<Rightarrow> Inr (- int n))
          else if c = CHR ''+'' then
            (case parse_digits 0 False cs of None \<Rightarrow> Inl ValueError | Some n \<Rightarrow> Inr (int n))
          else
            (case parse_digits 0 False (c # cs) of
               None \<Rightarrow> Inl ValueError | Some n \<Rightarrow> Inr (int n)))"

fun str_nat :: "nat \<Rightarrow> string" where
  "str_nat n =
     (if n < 10 then [digits ! n] else str_nat (n div 10) @ [digits ! (n mod 10)])"

declare str_nat.simps [simp del]

definition str_int :: "int \<Rightarrow> string" where
  \<comment> \<open>\<open>str(i)\<close>, as an f-string formats an integer\<close>
  "str_int i = (if i < 0 then CHR ''-'' # str_nat (nat (- i)) else str_nat (nat i))"

section \<open>The configuration\<close>

text \<open>
  The configuration is a tree of dicts. The keys the program gives a dict are the fields
  of a record; a field is \<open>None\<close> when the dict lacks the key. The fields named
  \<open>description\<close> in the source carry the name of their dict here.
\<close>

record table_config =
  source_table_id :: "string option"
  view_name :: "string option"
  filter_columns :: "filter_col list option"
  additional_where :: "string option"
  table_description :: "string option"

record source_dataset =
  target_dataset_key :: "string option"
  source_project_id :: "string option"
  source_description :: "string option"
  tables :: "(string, table_config) dict option"

record output_dataset =
  dataset_id :: "string option"
  output_description :: "string option"
  months_back :: "int option"
  labels :: "(string, string) dict option"

record config =
  project_id :: "string option"
  region :: "string option"
  view_prefix :: "string option"
  output_datasets_config :: "(string, output_dataset) dict option"
  source_datasets_config :: "(string, source_dataset) dict option"

section \<open>The assembler of the source datasets: generate\_source\_datasets\_config\<close>

definition predefined_structure :: "(string, string \<times> string list) dict" where
  \<comment> \<open>dataset name, then its description and its tables\<close>
  "predefined_structure =
     [(''raw_lake'', (''Raw data lake'',
         [''users'', ''transactions'', ''events'', ''orders'', ''logs''])),
      (''analytics_raw'', (''Raw analytics data'',
         [''user_behavior'', ''conversion_events'', ''page_tracking''])),
      (''transaction_raw'', (''Raw transaction data'',
         [''payments'', ''refunds'', ''invoices'']))]"

text \<open>The loop of lines 160 to 169; \<open>acc\<close> is \<open>dataset_config["tables"]\<close>.\<close>

fun tables_loop ::
  "(string, string list) dict \<Rightarrow> string list \<Rightarrow> (string, table_config) dict
   \<Rightarrow> (string, table_config) dict" where
  "tables_loop global_filters [] acc = acc"
| "tables_loop global_filters (table_name # rest) acc =
     tables_loop global_filters rest
       (dict_set table_name
          \<lparr>source_table_id = Some table_name,
           view_name = Some table_name,
           filter_columns = Some (get_table_filter_columns table_name global_filters),
           additional_where = Some [],
           table_description = Some (table_name @ '' filtered view'')\<rparr>
          acc)"

text \<open>The loop of lines 152 to 171; \<open>acc\<close> is \<open>source_datasets_config\<close>.\<close>

fun datasets_loop ::
  "(string, string list) dict \<Rightarrow> string \<Rightarrow> (string, string \<times> string list) dict
   \<Rightarrow> (string, source_dataset) dict \<Rightarrow> (string, source_dataset) dict" where
  "datasets_loop global_filters client_key [] acc = acc"
| "datasets_loop global_filters client_key ((dataset_name, cfg) # rest) acc =
     datasets_loop global_filters client_key rest
       (dict_set dataset_name
          \<lparr>target_dataset_key = Some client_key,
           source_project_id = None,
           source_description = Some (fst cfg),
           tables = Some (tables_loop global_filters (snd cfg) [])\<rparr>
          acc)"

definition generate_source_datasets_config ::
  "(string, string list) dict \<Rightarrow> string \<Rightarrow> (string, source_dataset) dict" where
  "generate_source_datasets_config global_filters client_key =
     datasets_loop global_filters client_key predefined_structure []"

section \<open>The renderer: generate\_tfvars\_content\<close>

text \<open>
  The renderer appends to the list \<open>lines\<close> and joins it with newlines at the end. Each
  function below gives the lines that one part of the source appends, or the \<open>KeyError\<close> of
  the first subscript that fails, in the order in which the source evaluates them.
\<close>

fun label_lines :: "(string, string) dict \<Rightarrow> string list" where
  "label_lines [] = []"
| \<open>label_lines ((label_key, label_value) # rest) =
     (''      '' @ label_key @ '' = "'' @ label_value @ ''"'') # label_lines rest\<close>

definition output_dataset_lines :: "string \<Rightarrow> output_dataset \<Rightarrow> error + string list" where
  \<open>output_dataset_lines key dataset =
     bind_res (subscript ''dataset_id'' (dataset_id dataset)) (\<lambda>did.
     bind_res (subscript ''description'' (output_description dataset)) (\<lambda>descr.
     bind_res (subscript ''months_back'' (months_back dataset)) (\<lambda>mb.
     bind_res (subscript ''labels'' (labels dataset)) (\<lambda>lbls.
     Inr ([''  "'' @ key @ ''" = {'',
           ''    dataset_id  = "'' @ did @ ''"'',
           ''    description = "'' @ descr @ ''"'',
           ''    months_back = '' @ str_int mb,
           ''    labels = {'']
          @ label_lines lbls
          @ [''    }'', ''  }'', ''''])))))\<close>

fun output_datasets_lines :: "(string, output_dataset) dict \<Rightarrow> error + string list" where
  "output_datasets_lines [] = Inr []"
| "output_datasets_lines ((key, dataset) # rest) =
     bind_res (output_dataset_lines key dataset) (\<lambda>ls.
     bind_res (output_datasets_lines rest) (\<lambda>more. Inr (ls @ more)))"

definition filter_col_lines :: "filter_col \<Rightarrow> error + string list" where
  \<open>filter_col_lines filter_col =
     bind_res (subscript ''column_name'' (column_name filter_col)) (\<lambda>cn.
     bind_res (subscript ''condition'' (condition filter_col)) (\<lambda>cond.
     bind_res
       (if operator filter_col \<noteq> Some ''AND''
        then bind_res (subscript ''operator'' (operator filter_col)) (\<lambda>opr.
               Inr [''            operator    = "'' @ opr @ ''"''])
        else Inr []) (\<lambda>op_lines.
     Inr ([''          {'',
           ''            column_name = "'' @ cn @ ''"'',
           ''            condition   = "'' @ cond @ ''"'']
          @ op_lines
          @ [''          }'']))))\<close>

fun filter_cols_lines :: "filter_col list \<Rightarrow> error + string list" where
  "filter_cols_lines [] = Inr []"
| "filter_cols_lines (filter_col # rest) =
     bind_res (filter_col_lines filter_col) (\<lambda>ls.
     bind_res (filter_cols_lines rest) (\<lambda>more. Inr (ls @ more)))"

definition truthy :: "string option \<Rightarrow> bool" where
  \<comment> \<open>the truth value of \<open>d.get(key)\<close>: the key is there and its string is not empty\<close>
  "truthy field = (case field of None \<Rightarrow> False | Some s \<Rightarrow> s \<noteq> [])"

definition table_lines :: "string \<Rightarrow> table_config \<Rightarrow> error + string list" where
  \<open>table_lines table_key table_info =
     bind_res (subscript ''source_table_id'' (source_table_id table_info)) (\<lambda>sid.
     bind_res (subscript ''view_name'' (view_name table_info)) (\<lambda>vn.
     bind_res (subscript ''filter_columns'' (filter_columns table_info)) (\<lambda>fcs.
     bind_res (filter_cols_lines fcs) (\<lambda>fc_lines.
     bind_res
       (if truthy (additional_where table_info)
        then bind_res (subscript ''additional_where'' (additional_where table_info)) (\<lambda>w.
               Inr [''        additional_where = "'' @ w @ ''"''])
        else Inr []) (\<lambda>where_lines.
     bind_res
       (if truthy (table_description table_info)
        then bind_res (subscript ''description'' (table_description table_info)) (\<lambda>d.
               Inr [''        description     = "'' @ d @ ''"''])
        else Inr []) (\<lambda>descr_lines.
     Inr ([''      "'' @ table_key @ ''" = {'',
           ''        source_table_id = "'' @ sid @ ''"'',
           ''        view_name      = "'' @ vn @ ''"'',
           ''        filter_columns = ['']
          @ fc_lines
          @ [''        ]'']
          @ where_lines
          @ descr_lines
          @ [''      }'', ''''])))))))\<close>

fun tables_lines :: "(string, table_config) dict \<Rightarrow> error + string list" where
  "tables_lines [] = Inr []"
| "tables_lines ((table_key, table_info) # rest) =
     bind_res (table_lines table_key table_info) (\<lambda>ls.
     bind_res (tables_lines rest) (\<lambda>more. Inr (ls @ more)))"

definition source_dataset_lines :: "string \<Rightarrow> source_dataset \<Rightarrow> error + string list" where
  \<open>source_dataset_lines dataset_name dataset_info =
     bind_res (subscript ''target_dataset_key'' (target_dataset_key dataset_info)) (\<lambda>tk.
     bind_res
       (if source_project_id dataset_info \<noteq> None
        then bind_res (subscript ''source_project_id'' (source_project_id dataset_info)) (\<lambda>p.
               Inr [''    source_project_id  = "'' @ p @ ''"''])
        else Inr []) (\<lambda>project_lines.
     bind_res (subscript ''description'' (source_description dataset_info)) (\<lambda>descr.
     bind_res (subscript ''tables'' (tables dataset_info)) (\<lambda>tbls.
     bind_res (tables_lines tbls) (\<lambda>tbl_lines.
     Inr ([''  "'' @ dataset_name @ ''" = {'',
           ''    target_dataset_key = "'' @ tk @ ''"'']
          @ project_lines
          @ [''    description        = "'' @ descr @ ''"'',
             ''    tables = {'']
          @ tbl_lines
          @ [''    }'', ''  }'', '''']))))))\<close>

fun source_datasets_lines :: "(string, source_dataset) dict \<Rightarrow> error + string list" where
  "source_datasets_lines [] = Inr []"
| "source_datasets_lines ((dataset_name, dataset_info) # rest) =
     bind_res (source_dataset_lines dataset_name dataset_info) (\<lambda>ls.
     bind_res (source_datasets_lines rest) (\<lambda>more. Inr (ls @ more)))"

definition get_default :: "string option \<Rightarrow> string \<Rightarrow> string" where
  \<comment> \<open>\<open>d.get(key, default)\<close>\<close>
  "get_default field dflt = (case field of None \<Rightarrow> dflt | Some v \<Rightarrow> v)"

definition generate_tfvars_lines :: "config \<Rightarrow> error + string list" where
  \<open>generate_tfvars_lines config =
     bind_res (subscript ''project_id'' (project_id config)) (\<lambda>pid.
     bind_res (subscript ''output_datasets_config'' (output_datasets_config config)) (\<lambda>odc.
     bind_res (output_datasets_lines odc) (\<lambda>out_lines.
     bind_res (subscript ''source_datasets_config'' (source_datasets_config config)) (\<lambda>sdc.
     bind_res (source_datasets_lines sdc) (\<lambda>src_lines.
     Inr ([''# GCP Configuration'',
           ''project_id = "'' @ pid @ ''"'',
           ''region     = "'' @ get_default (region config) ''asia-northeast1'' @ ''"'',
           '''',
           ''# View Configuration'',
           ''view_prefix = "'' @ get_default (view_prefix config) ''filtered_'' @ ''"'',
           '''',
           ''# Output Datasets Configuration'',
           ''output_datasets_config = {'']
          @ out_lines
          @ [''}'',
             '''',
             ''# Source Datasets and Tables Configuration'',
             ''source_datasets_config = {'']
          @ src_lines
          @ [''}'']))))))\<close>

definition generate_tfvars_content :: "config \<Rightarrow> error + string" where
  "generate_tfvars_content config =
     bind_res (generate_tfvars_lines config) (\<lambda>lines. Inr (join [CHR 0x0A] lines))"

text \<open>
  What the renderer asks of a configuration: a dict is renderable when it has every key that
  the renderer subscripts, the \<open>operator\<close> of a filter column among them (line 246). The
  values of the keys are not looked at.
\<close>

definition renderable_filter_col :: "filter_col \<Rightarrow> bool" where
  "renderable_filter_col fc =
     (column_name fc \<noteq> None \<and> condition fc \<noteq> None \<and> operator fc \<noteq> None)"

definition renderable_table :: "table_config \<Rightarrow> bool" where
  "renderable_table t =
     (source_table_id t \<noteq> None \<and> view_name t \<noteq> None \<and>
      (case filter_columns t of None \<Rightarrow> False | Some fcs \<Rightarrow> list_all renderable_filter_col fcs))"

definition renderable_source_dataset :: "source_dataset \<Rightarrow> bool" where
  "renderable_source_dataset d =
     (target_dataset_key d \<noteq> None \<and> source_description d \<noteq> None \<and>
      (case tables d of None \<Rightarrow> False | Some ts \<Rightarrow> list_all (\<lambda>(k, t). renderable_table t) ts))"

definition renderable_output_dataset :: "output_dataset \<Rightarrow> bool" where
  "renderable_output_dataset d =
     (dataset_id d \<noteq> None \<and> output_description d \<noteq> None \<and> months_back d \<noteq> None \<and>
      labels d \<noteq> None)"

definition renderable_config :: "config \<Rightarrow> bool" where
  "renderable_config c =
     (project_id c \<noteq> None \<and>
      (case output_datasets_config c of
         None \<Rightarrow> False | Some ods \<Rightarrow> list_all (\<lambda>(k, d). renderable_output_dataset d) ods) \<and>
      (case source_datasets_config c of
         None \<Rightarrow> False | Some sds \<Rightarrow> list_all (\<lambda>(k, d). renderable_source_dataset d) sds))"

section \<open>The interactive session: main\<close>

text \<open>
  The standard input is the list of the lines still to be read; \<open>input()\<close> takes the first
  one and raises \<open>EOFError\<close> when there is none. What the program prints is not modelled.
  A function that reads returns its value together with the lines it left.
\<close>

fun get_input :: "bool \<Rightarrow> string option \<Rightarrow> string list \<Rightarrow> error + (string \<times> string list)" where
  "get_input required dflt [] = Inl EOFError"
| "get_input required dflt (l # ls) =
     (if strip l \<noteq> [] then Inr (strip l, ls)
      else if truthy dflt then Inr (get_default dflt [], ls)
      else if \<not> required then Inr ([], ls)
      else get_input required dflt ls)"

fun get_yes_no :: "bool \<Rightarrow> string list \<Rightarrow> error + (bool \<times> string list)" where
  "get_yes_no dflt [] = Inl EOFError"
| "get_yes_no dflt (l # ls) =
     (if lower (strip l) \<in> set [''y'', ''yes''] then Inr (True, ls)
      else if lower (strip l) \<in> set [''n'', ''no''] then Inr (False, ls)
      else if lower (strip l) = [] then Inr (dflt, ls)
      else get_yes_no dflt ls)"

definition filter_column_names :: "string list" where
  "filter_column_names = [''account_name'', ''client_id'', ''user_id'', ''status'', ''region'']"

text \<open>The loop of lines 62 to 67; \<open>filter_values\<close> is the dict being filled.\<close>

fun collect_loop ::
  "string list \<Rightarrow> (string, string list) dict \<Rightarrow> string list
   \<Rightarrow> error + ((string, string list) dict \<times> string list)" where
  "collect_loop [] filter_values ls = Inr (filter_values, ls)"
| "collect_loop (column # rest) filter_values ls =
     (case get_input False None ls of
        Inl e \<Rightarrow> Inl e
      | Inr (v, ls') \<Rightarrow>
          if v \<noteq> []
          then collect_loop rest
                 (dict_set column (filter (\<lambda>w. w \<noteq> []) (map strip (split CHR '','' v)))
                    filter_values) ls'
          else collect_loop rest filter_values ls')"

definition collect_global_filter_values ::
  "string list \<Rightarrow> error + ((string, string list) dict \<times> string list)" where
  "collect_global_filter_values ls = collect_loop filter_column_names [] ls"

definition months_back_input :: "string list \<Rightarrow> error + (int \<times> string list)" where
  \<comment> \<open>\<open>int(get_input("Months back", default="18"))\<close>\<close>
  "months_back_input ls =
     (case get_input True (Some ''18'') ls of
        Inl e \<Rightarrow> Inl e
      | Inr (s, ls') \<Rightarrow> (case py_int s of Inl e \<Rightarrow> Inl e | Inr m \<Rightarrow> Inr (m, ls')))"

definition output_dataset_entry :: "string \<Rightarrow> string \<Rightarrow> int \<Rightarrow> output_dataset" where
  \<comment> \<open>the dict of lines 299 to 308, written again at lines 315 to 324\<close>
  "output_dataset_entry dataset_key client_name months =
     \<lparr>dataset_id = Some (dataset_key @ ''_filtered''),
      output_description = Some (title dataset_key @ '' filtered views for '' @ client_name),
      months_back = Some months,
      labels = Some [(''environment'', ''production''),
                     (''client'', replace CHR '' '' CHR ''_'' (lower client_name)),
                     (''team'', dataset_key)]\<rparr>"

lemma get_input_shorter:
  "get_input required dflt ls = Inr (v, ls') \<Longrightarrow> length ls' < length ls"
  by (induction ls) (auto split: if_splits)

lemma get_yes_no_shorter:
  "get_yes_no dflt ls = Inr (b, ls') \<Longrightarrow> length ls' < length ls"
  by (induction ls) (auto split: if_splits)

lemma months_back_input_shorter:
  "months_back_input ls = Inr (m, ls') \<Longrightarrow> length ls' < length ls"
  by (auto simp: months_back_input_def split: sum.splits dest: get_input_shorter)

text \<open>The loop of lines 311 to 324; each turn reads at least one line.\<close>

function add_output_datasets ::
  "string \<Rightarrow> (string, output_dataset) dict \<Rightarrow> string list
   \<Rightarrow> error + ((string, output_dataset) dict \<times> string list)" where
  "add_output_datasets client_name odc ls =
     (case get_yes_no False ls of
        Inl e \<Rightarrow> Inl e
      | Inr (again, ls1) \<Rightarrow>
          if \<not> again then Inr (odc, ls1)
          else
            (case get_input True None ls1 of
               Inl e \<Rightarrow> Inl e
             | Inr (dataset_key, ls2) \<Rightarrow>
                 (case months_back_input ls2 of
                    Inl e \<Rightarrow> Inl e
                  | Inr (months, ls3) \<Rightarrow>
                      add_output_datasets client_name
                        (dict_set dataset_key
                           (output_dataset_entry dataset_key client_name months) odc)
                        ls3)))"
  by pat_completeness auto
termination
proof (relation "measure (\<lambda>(client_name, odc, ls). length ls)")
  show "wf (measure (\<lambda>(client_name, odc, ls). length ls))" by simp
next
  fix client_name :: string and odc :: "(string, output_dataset) dict"
    and ls :: "string list" and x :: "bool \<times> string list" and again ls1
    and y :: "string \<times> string list" and dataset_key ls2
    and z :: "int \<times> string list" and months ls3
  assume "get_yes_no False ls = Inr x" "(again, ls1) = x"
    "get_input True None ls1 = Inr y" "(dataset_key, ls2) = y"
    "months_back_input ls2 = Inr z" "(months, ls3) = z"
  then have "length ls1 < length ls" "length ls2 < length ls1" "length ls3 < length ls2"
    by (auto dest: get_yes_no_shorter get_input_shorter months_back_input_shorter)
  then show "((client_name,
        dict_set dataset_key (output_dataset_entry dataset_key client_name months) odc, ls3),
       client_name, odc, ls) \<in> measure (\<lambda>(client_name, odc, ls). length ls)"
    by simp
qed

declare add_output_datasets.simps [simp del]

record run =
  run_client_name :: string
  run_global_filters :: "(string, string list) dict"
  run_config :: config
  run_stdin :: "string list"

text \<open>
  Lines 277 to 332 of \<open>main\<close>: the answers are read in the order of the prompts and the
  configuration is assembled. The result keeps the client name and the global filters beside
  the configuration, and the lines not yet read.
\<close>

definition main_assemble :: "string list \<Rightarrow> error + run" where
  "main_assemble ls =
     bind_res (get_input True None ls) (\<lambda>(pid, ls1).
     bind_res (get_input True (Some ''asia-northeast1'') ls1) (\<lambda>(reg, ls2).
     bind_res (get_input True (Some ''filtered_'') ls2) (\<lambda>(prefix, ls3).
     bind_res (get_input True None ls3) (\<lambda>(client_name, ls4).
     bind_res (collect_global_filter_values ls4) (\<lambda>(global_filters, ls5).
     let client_key = replace CHR ''-'' CHR ''_'' (replace CHR '' '' CHR ''_'' (lower client_name)) in
     bind_res (get_input True (Some client_key) ls5) (\<lambda>(dataset_key, ls6).
     bind_res (months_back_input ls6) (\<lambda>(months, ls7).
     bind_res (add_output_datasets client_name
                 (dict_set dataset_key (output_dataset_entry dataset_key client_name months) [])
                 ls7) (\<lambda>(odc, ls8).
     Inr \<lparr>run_client_name = client_name,
          run_global_filters = global_filters,
          run_config =
            \<lparr>project_id = Some pid,
             region = Some reg,
             view_prefix = Some prefix,
             output_datasets_config = Some odc,
             source_datasets_config =
               Some (generate_source_datasets_config global_filters client_key)\<rparr>,
          run_stdin = ls8\<rparr>))))))))"

definition main_content :: "string list \<Rightarrow> error + string" where
  \<comment> \<open>line 335: the text that \<open>main\<close> then writes to the output file\<close>
  "main_content ls = bind_res (main_assemble ls) (\<lambda>r. generate_tfvars_content (run_config r))"

text \<open>
  Two sessions. In the first the user keeps every default; in the second the user types the
  key \<open>foo\<close> for the first output dataset and adds a second dataset \<open>analytics\<close>.
\<close>

definition session_default :: "string list" where
  "session_default =
     [''proj'', '''', '''', ''Acme Co'', '''', '''', '''', ''active, done'', '''', '''', '''', ''n'']"

definition session_override :: "string list" where
  "session_override =
     [''proj'', '''', '''', ''Acme Co'', '''', '''', '''', ''active, done'', '''',
      ''foo'', ''12'', ''y'', ''analytics'', '''', ''n'']"


definition output_keys :: "config \<Rightarrow> string list" where
  "output_keys c = (case output_datasets_config c of None \<Rightarrow> [] | Some odc \<Rightarrow> map fst odc)"


text \<open>A small configuration without \<open>region\<close> and \<open>view_prefix\<close>, with one output dataset.\<close>

definition config_minimal :: config where
  "config_minimal =
     \<lparr>project_id = Some ''proj'',
      region = None,
      view_prefix = None,
      output_datasets_config = Some [(''acme_co'', output_dataset_entry ''acme_co'' ''Acme Co'' 18)],
      source_datasets_config = Some []\<rparr>"

text \<open>
  A configuration whose source dataset has an empty \<open>source_project_id\<close> and whose table
  has an empty \<open>additional_where\<close>, an empty description and a filter column with an empty
  \<open>operator\<close>.
\<close>

definition config_empty_fields :: config where
  "config_empty_fields =
     \<lparr>project_id = Some ''proj'',
      region = None,
      view_prefix = None,
      output_datasets_config = Some [],
      source_datasets_config =
        Some [(''raw_lake'',
               \<lparr>target_dataset_key = Some ''acme_co'',
                source_project_id = Some [],
                source_description = Some ''Raw data lake'',
                tables =
                  Some [(''orders'',
                         \<lparr>source_table_id = Some ''orders'',
                          view_name = Some ''orders'',
                          filter_columns =
                            Some [\<lparr>column_name = Some ''status'',
                                   condition = Some ''IS NOT NULL'',
                                   operator = Some []\<rparr>],
                          additional_where = Some [],
                          table_description = Some []\<rparr>)]\<rparr>)]\<rparr>"

definition field_line :: "string \<Rightarrow> string \<Rightarrow> bool" where
  \<comment> \<open>the line, after its indentation, begins with the field name and a space\<close>
  "field_line name l = prefix (name @ '' '') (dropWhile (\<lambda>c. c = CHR '' '') l)"

text \<open>The first session again, typed differently: blanks around an answer, defaults typed out.\<close>

definition session_typed :: "string list" where
  "session_typed =
     [''  proj '', ''asia-northeast1'', ''filtered_'', ''Acme Co'', '''', '''', '''',
      ''active,done'', '''', ''acme_co'', '' 18'', ''No'']"

section \<open>Well-formedness in the words of the specification\<close>











section \<open>The renderer, statement by statement\<close>




















section \<open>Properties of the filter resolver\<close>

lemma join_quoted:
  "vs \<noteq> [] \<Longrightarrow>
   [CHR 0x27] @ join ([CHR 0x27] @ '', '' @ [CHR 0x27]) vs @ [CHR 0x27] = join '', '' (map quoted vs)"
proof (induction vs)
  case Nil
  then show ?case by simp
next
  case (Cons v ws)
  then show ?case by (cases ws) (simp_all add: quoted_def)
qed

lemma format_condition_single: "format_condition [v] = equality_condition v"
  by (simp add: format_condition_def equality_condition_def quoted_def)

lemma format_condition_many:
  "2 \<le> length vs \<Longrightarrow> format_condition vs = in_list_condition vs"
proof -
  assume len: "2 \<le> length vs"
  then have ne: "vs \<noteq> []" by auto
  have "format_condition vs =
      ''IN ('' @ ([CHR 0x27] @ join ([CHR 0x27] @ '', '' @ [CHR 0x27]) vs @ [CHR 0x27]) @ '')''"
    using len by (simp add: format_condition_def)
  also have "\<dots> = in_list_condition vs"
    unfolding join_quoted [OF ne] in_list_condition_def ..
  finally show ?thesis .
qed

lemma filter_loop_eq:
  "filter_loop gf cs acc =
     acc @ map (\<lambda>c. \<lparr>column_name = Some c,
                      condition = Some (format_condition (the (map_of gf c))),
                      operator = Some ''AND''\<rparr>)
             (filter (has_values gf) cs)"
  by (induction cs arbitrary: acc) (auto simp: has_values_def split: option.splits)

lemma catalog_columns_distinct:
  "map_of table_filters t = Some cols \<Longrightarrow> distinct cols"
  by (auto simp: table_filters_def split: if_splits)

text \<open>
  C1. Whatever the table name and the global filters, every filter column that
  \<open>get_table_filter_columns\<close> emits has the operator \<open>AND\<close>, names a column whose
  value list in the global filters is not empty, and carries a condition fixed by the length of
  that list alone: one value \<open>v\<close> gives \<open>= 'v'\<close>; two or more give
  \<open>IN ('v1', 'v2', ...)\<close>, the values in list order, each between single quotes and
  otherwise unchanged (an embedded quote is not escaped).
\<close>

theorem filter_columns_condition:
  "\<forall>fc \<in> set (get_table_filter_columns table_name gf).
     operator fc = Some ''AND'' \<and>
     (\<exists>c vs. column_name fc = Some c \<and> map_of gf c = Some vs \<and> vs \<noteq> [] \<and>
        (\<forall>v. vs = [v] \<longrightarrow> condition fc = Some (equality_condition v)) \<and>
        (2 \<le> length vs \<longrightarrow> condition fc = Some (in_list_condition vs)))"
proof
  fix fc
  assume "fc \<in> set (get_table_filter_columns table_name gf)"
  then obtain c where c: "has_values gf c"
    and fc: "fc = \<lparr>column_name = Some c,
                   condition = Some (format_condition (the (map_of gf c))),
                   operator = Some ''AND''\<rparr>"
    by (auto simp: get_table_filter_columns_def filter_loop_eq)
  from c obtain vs where vs: "map_of gf c = Some vs" "vs \<noteq> []"
    by (auto simp: has_values_def split: option.splits)
  have "\<forall>v. vs = [v] \<longrightarrow> condition fc = Some (equality_condition v)"
    using fc vs by (simp add: format_condition_single)
  moreover have "2 \<le> length vs \<longrightarrow> condition fc = Some (in_list_condition vs)"
    using fc vs by (simp add: format_condition_many)
  ultimately show "operator fc = Some ''AND'' \<and>
     (\<exists>c vs. column_name fc = Some c \<and> map_of gf c = Some vs \<and> vs \<noteq> [] \<and>
        (\<forall>v. vs = [v] \<longrightarrow> condition fc = Some (equality_condition v)) \<and>
        (2 \<le> length vs \<longrightarrow> condition fc = Some (in_list_condition vs)))"
    using fc vs by auto
qed


theorem filter_columns_condition_witness:
  "get_table_filter_columns ''orders'' [(''status'', [''active'', ''done''])] =
     [\<lparr>column_name = Some ''status'', condition = Some ''IN ('active', 'done')'',
       operator = Some ''AND''\<rparr>] \<and>
   in_list_condition [''active'', ''done''] = ''IN ('active', 'done')'' \<and>
   get_table_filter_columns ''users'' [(''status'', [''it's'']), (''user_id'', [])] =
     [\<lparr>column_name = Some ''status'', condition = Some (''= 'it's'' @ [CHR 0x27]),
       operator = Some ''AND''\<rparr>] \<and>
   equality_condition ''it's'' = ''= 'it's'' @ [CHR 0x27]"
  using filter_columns_condition [of "''orders''" "[(''status'', [''active'', ''done''])]"]
  by (simp add: get_table_filter_columns_def table_filters_def format_condition_def
      in_list_condition_def equality_condition_def quoted_def)

text \<open>
  C2. For a table name that the catalog does not know the resolver returns the empty list.
  For a catalog table with columns \<open>cols\<close> it emits one filter column for each column of
  \<open>cols\<close> that the global filters give a non-empty value list, in the order of
  \<open>cols\<close>, and nothing for the other columns; no column is emitted twice. The function is
  total: it raises for no input.
\<close>

theorem filter_columns_catalog:
  "(map_of table_filters t = None \<longrightarrow> get_table_filter_columns t gf = []) \<and>
   (\<forall>cols. map_of table_filters t = Some cols \<longrightarrow>
      map column_name (get_table_filter_columns t gf) = map Some (filter (has_values gf) cols) \<and>
      distinct (map column_name (get_table_filter_columns t gf)))"
proof (intro conjI impI allI)
  assume "map_of table_filters t = None"
  then show "get_table_filter_columns t gf = []"
    by (simp add: get_table_filter_columns_def)
next
  fix cols assume cols: "map_of table_filters t = Some cols"
  then show m: "map column_name (get_table_filter_columns t gf) = map Some (filter (has_values gf) cols)"
    by (simp add: get_table_filter_columns_def filter_loop_eq comp_def)
  show "distinct (map column_name (get_table_filter_columns t gf))"
    unfolding m using catalog_columns_distinct [OF cols]
    by (simp add: distinct_map)
qed

theorem filter_columns_catalog_witness:
  "map_of table_filters ''payments'' = None \<and>
   get_table_filter_columns ''payments'' [(''status'', [''active'', ''done''])] = [] \<and>
   map_of table_filters ''orders'' = Some [''client_id'', ''status''] \<and>
   map column_name (get_table_filter_columns ''orders'' [(''status'', [''active'', ''done''])])
     = [Some ''status'']"
  using filter_columns_catalog [of "''orders''" "[(''status'', [''active'', ''done''])]"]
    filter_columns_catalog [of "''payments''" "[(''status'', [''active'', ''done''])]"]
  by (simp add: table_filters_def has_values_def)

section \<open>Properties of the assembler\<close>

lemma bind_res_Inl [simp]: "bind_res (Inl e) f = Inl e"
  by (simp add: bind_res_def)

lemma bind_res_Inr [simp]: "bind_res (Inr x) f = f x"
  by (simp add: bind_res_def)

lemma bind_res_eq_Inr:
  "bind_res m f = Inr y \<longleftrightarrow> (\<exists>x. m = Inr x \<and> f x = Inr y)"
  by (cases m) simp_all

lemma subscript_Some [simp]: "subscript key (Some v) = Inr v"
  by (simp add: subscript_def)

lemma subscript_None [simp]: "subscript key None = Inl (KeyError key)"
  by (simp add: subscript_def)

lemma dict_set_entries:
  "e \<in> set (dict_set k v d) \<Longrightarrow> e = (k, v) \<or> e \<in> set d"
  by (induction d) (auto split: if_splits)

lemma dict_set_first:
  "d \<noteq> [] \<Longrightarrow> fst (hd (dict_set k v d)) = fst (hd d)"
  by (cases d) auto

lemma dict_set_not_Nil [simp]: "dict_set k v d \<noteq> []"
  by (cases d) (auto split: if_splits)

text \<open>What the loop of \<open>main\<close> keeps: the entries it adds, the first key.\<close>

lemma add_output_datasets_entries:
  "add_output_datasets c odc ls = Inr (odc', ls') \<Longrightarrow>
   \<forall>(k, d) \<in> set odc. \<exists>m. d = output_dataset_entry k c m \<Longrightarrow>
   \<forall>(k, d) \<in> set odc'. \<exists>m. d = output_dataset_entry k c m"
proof (induction c odc ls rule: add_output_datasets.induct)
  case (1 c odc ls)
  from "1.prems"(1) obtain again ls1 where yn: "get_yes_no False ls = Inr (again, ls1)"
    by (subst (asm) add_output_datasets.simps) (auto split: sum.splits)
  show ?case
  proof (cases again)
    case False
    with "1.prems" yn show ?thesis
      by (subst (asm) add_output_datasets.simps) simp
  next
    case True
    with "1.prems"(1) yn obtain dk ls2 m ls3
      where dk: "get_input True None ls1 = Inr (dk, ls2)"
        and m: "months_back_input ls2 = Inr (m, ls3)"
        and rec: "add_output_datasets c (dict_set dk (output_dataset_entry dk c m) odc) ls3
                  = Inr (odc', ls')"
      by (subst (asm) add_output_datasets.simps) (auto split: sum.splits)
    have "\<forall>(k, d) \<in> set (dict_set dk (output_dataset_entry dk c m) odc).
            \<exists>m. d = output_dataset_entry k c m"
      using "1.prems"(2) by (auto dest!: dict_set_entries)
    with "1.IH" [OF yn refl _ dk refl m refl rec] True show ?thesis by simp
  qed
qed

lemma add_output_datasets_first:
  "add_output_datasets c odc ls = Inr (odc', ls') \<Longrightarrow> odc \<noteq> [] \<Longrightarrow>
   odc' \<noteq> [] \<and> fst (hd odc') = fst (hd odc)"
proof (induction c odc ls rule: add_output_datasets.induct)
  case (1 c odc ls)
  from "1.prems"(1) obtain again ls1 where yn: "get_yes_no False ls = Inr (again, ls1)"
    by (subst (asm) add_output_datasets.simps) (auto split: sum.splits)
  show ?case
  proof (cases again)
    case False
    with "1.prems" yn show ?thesis
      by (subst (asm) add_output_datasets.simps) simp
  next
    case True
    with "1.prems"(1) yn obtain dk ls2 m ls3
      where dk: "get_input True None ls1 = Inr (dk, ls2)"
        and m: "months_back_input ls2 = Inr (m, ls3)"
        and rec: "add_output_datasets c (dict_set dk (output_dataset_entry dk c m) odc) ls3
                  = Inr (odc', ls')"
      by (subst (asm) add_output_datasets.simps) (auto split: sum.splits)
    from "1.IH" [OF yn refl _ dk refl m refl rec] True "1.prems"(2)
    show ?thesis by (simp add: dict_set_first)
  qed
qed

text \<open>A run of \<open>main\<close> that assembles a configuration, taken apart.\<close>

lemma main_assemble_cases:
  assumes "main_assemble ls = Inr r"
  obtains pid reg prefix gf dk m odc ls1 ls2 ls3 ls4 ls5 ls6 ls7 where
    "get_input True None ls = Inr (pid, ls1)"
    "get_input True (Some ''asia-northeast1'') ls1 = Inr (reg, ls2)"
    "get_input True (Some ''filtered_'') ls2 = Inr (prefix, ls3)"
    "get_input True None ls3 = Inr (run_client_name r, ls4)"
    "collect_global_filter_values ls4 = Inr (gf, ls5)"
    "get_input True
       (Some (replace CHR ''-'' CHR ''_'' (replace CHR '' '' CHR ''_'' (lower (run_client_name r)))))
       ls5 = Inr (dk, ls6)"
    "months_back_input ls6 = Inr (m, ls7)"
    "add_output_datasets (run_client_name r)
       (dict_set dk (output_dataset_entry dk (run_client_name r) m) []) ls7
     = Inr (odc, run_stdin r)"
    "run_global_filters r = gf"
    "run_config r =
       \<lparr>project_id = Some pid, region = Some reg, view_prefix = Some prefix,
        output_datasets_config = Some odc,
        source_datasets_config =
          Some (generate_source_datasets_config gf
                  (replace CHR ''-'' CHR ''_''
                     (replace CHR '' '' CHR ''_'' (lower (run_client_name r)))))\<rparr>"
  using assms unfolding main_assemble_def Let_def
  by (auto simp: bind_res_eq_Inr)

lemma main_assemble_outputs:
  assumes "main_assemble ls = Inr r"
  shows "\<exists>odc. output_datasets_config (run_config r) = Some odc \<and> odc \<noteq> [] \<and>
           (\<forall>(k, d) \<in> set odc. \<exists>m. d = output_dataset_entry k (run_client_name r) m)"
  using assms
proof (rule main_assemble_cases)
  fix dk m odc ls7 pid reg prefix gf
  assume loop: "add_output_datasets (run_client_name r)
       (dict_set dk (output_dataset_entry dk (run_client_name r) m) []) ls7
     = Inr (odc, run_stdin r)"
    and cfg: "run_config r =
       \<lparr>project_id = Some pid, region = Some reg, view_prefix = Some prefix,
        output_datasets_config = Some odc,
        source_datasets_config =
          Some (generate_source_datasets_config gf
                  (replace CHR ''-'' CHR ''_''
                     (replace CHR '' '' CHR ''_'' (lower (run_client_name r)))))\<rparr>"
  have "\<forall>(k, d) \<in> set odc. \<exists>m. d = output_dataset_entry k (run_client_name r) m"
    by (rule add_output_datasets_entries [OF loop]) auto
  moreover have "odc \<noteq> []"
    using add_output_datasets_first [OF loop] by simp
  ultimately show ?thesis using cfg by simp
qed

lemmas string_ops =
  strip_def is_space_def lower_def lower_char_def upper_char_def uppers_def lowers_def
  replace_def truthy_def get_default_def title_def is_cased_def

lemma py_int_18: "py_int ''18'' = Inr 18"
  by (simp add: py_int_def string_ops digits_def upt_rec)

lemma py_int_12: "py_int ''12'' = Inr 12"
  by (simp add: py_int_def string_ops digits_def upt_rec)

lemma session_override_run:
  "main_assemble session_override =
     Inr \<lparr>run_client_name = ''Acme Co'',
          run_global_filters = [(''status'', [''active'', ''done''])],
          run_config =
            \<lparr>project_id = Some ''proj'',
             region = Some ''asia-northeast1'',
             view_prefix = Some ''filtered_'',
             output_datasets_config =
               Some [(''foo'', output_dataset_entry ''foo'' ''Acme Co'' 12),
                     (''analytics'', output_dataset_entry ''analytics'' ''Acme Co'' 18)],
             source_datasets_config =
               Some (generate_source_datasets_config [(''status'', [''active'', ''done''])]
                       ''acme_co'')\<rparr>,
          run_stdin = []\<rparr>"
  by (simp add: main_assemble_def session_override_def string_ops Let_def
      collect_global_filter_values_def filter_column_names_def months_back_input_def
      py_int_18 py_int_12 add_output_datasets.simps)

lemma session_default_run:
  "main_assemble session_default =
     Inr \<lparr>run_client_name = ''Acme Co'',
          run_global_filters = [(''status'', [''active'', ''done''])],
          run_config =
            \<lparr>project_id = Some ''proj'',
             region = Some ''asia-northeast1'',
             view_prefix = Some ''filtered_'',
             output_datasets_config =
               Some [(''acme_co'', output_dataset_entry ''acme_co'' ''Acme Co'' 18)],
             source_datasets_config =
               Some (generate_source_datasets_config [(''status'', [''active'', ''done''])]
                       ''acme_co'')\<rparr>,
          run_stdin = []\<rparr>"
  by (simp add: main_assemble_def session_default_def string_ops Let_def
      collect_global_filter_values_def filter_column_names_def months_back_input_def
      py_int_18 add_output_datasets.simps)

text \<open>
  C3. In every configuration that \<open>main\<close> assembles, the first output dataset and every
  one the user adds carries the labels \<open>environment\<close>, \<open>client\<close> and \<open>team\<close>,
  these three keys and no other: \<open>environment\<close> is \<open>production\<close>, \<open>client\<close> is
  the client name in lower case with spaces replaced by underscores, \<open>team\<close> is the key of
  the dataset.
\<close>

theorem output_labels:
  "main_assemble ls = Inr r \<Longrightarrow>
   \<exists>odc. output_datasets_config (run_config r) = Some odc \<and> odc \<noteq> [] \<and>
     (\<forall>(k, d) \<in> set odc.
        labels d = Some [(''environment'', ''production''),
                         (''client'', replace CHR '' '' CHR ''_'' (lower (run_client_name r))),
                         (''team'', k)])"
proof -
  assume "main_assemble ls = Inr r"
  from main_assemble_outputs [OF this] obtain odc
    where odc: "output_datasets_config (run_config r) = Some odc" "odc \<noteq> []"
      and ent: "\<forall>(k, d) \<in> set odc. \<exists>m. d = output_dataset_entry k (run_client_name r) m"
    by blast
  from ent have "\<forall>(k, d) \<in> set odc.
        labels d = Some [(''environment'', ''production''),
                         (''client'', replace CHR '' '' CHR ''_'' (lower (run_client_name r))),
                         (''team'', k)]"
    by (auto simp: output_dataset_entry_def)
  with odc show ?thesis by blast
qed

theorem output_labels_witness:
  "main_assemble session_override =
     Inr \<lparr>run_client_name = ''Acme Co'',
          run_global_filters = [(''status'', [''active'', ''done''])],
          run_config =
            \<lparr>project_id = Some ''proj'',
             region = Some ''asia-northeast1'',
             view_prefix = Some ''filtered_'',
             output_datasets_config =
               Some [(''foo'', output_dataset_entry ''foo'' ''Acme Co'' 12),
                     (''analytics'', output_dataset_entry ''analytics'' ''Acme Co'' 18)],
             source_datasets_config =
               Some (generate_source_datasets_config [(''status'', [''active'', ''done''])]
                       ''acme_co'')\<rparr>,
          run_stdin = []\<rparr> \<and>
   labels (output_dataset_entry ''foo'' ''Acme Co'' 12) =
     Some [(''environment'', ''production''), (''client'', ''acme_co''), (''team'', ''foo'')] \<and>
   labels (output_dataset_entry ''analytics'' ''Acme Co'' 18) =
     Some [(''environment'', ''production''), (''client'', ''acme_co''),
           (''team'', ''analytics'')]"
  using output_labels [OF session_override_run] session_override_run
  by (simp add: string_ops)

lemma tables_loop_entries:
  "(k, t) \<in> set (tables_loop gf ts acc) \<Longrightarrow>
   (k, t) \<in> set acc \<or>
   t = \<lparr>source_table_id = Some k, view_name = Some k,
        filter_columns = Some (get_table_filter_columns k gf),
        additional_where = Some [],
        table_description = Some (k @ '' filtered view'')\<rparr>"
  by (induction ts arbitrary: acc) (auto dest!: dict_set_entries)

lemma datasets_loop_entries:
  "(n, d) \<in> set (datasets_loop gf ck ps acc) \<Longrightarrow>
   (n, d) \<in> set acc \<or>
   (\<exists>descr ts. d = \<lparr>target_dataset_key = Some ck, source_project_id = None,
                     source_description = Some descr,
                     tables = Some (tables_loop gf ts [])\<rparr>)"
proof (induction ps arbitrary: acc)
  case Nil
  then show ?case by simp
next
  case (Cons p ps)
  obtain name cfg where p: "p = (name, cfg)" by (cases p)
  from Cons.prems Cons.IH show ?case
    unfolding p by (fastforce dest!: dict_set_entries)
qed


lemma generated_datasets:
  "(n, d) \<in> set (generate_source_datasets_config gf ck) \<Longrightarrow>
   \<exists>descr ts. d = \<lparr>target_dataset_key = Some ck, source_project_id = None,
                    source_description = Some descr,
                    tables = Some (tables_loop gf ts [])\<rparr>"
  unfolding generate_source_datasets_config_def
  by (drule datasets_loop_entries) simp








lemma months_back_default:
  "strip l = [] \<Longrightarrow> months_back_input (l # ls) = Inr (18, ls)"
  by (simp add: months_back_input_def truthy_def get_default_def py_int_18)

lemma output_block_in_section:
  "output_datasets_lines odc = Inr ls \<Longrightarrow> (k, d) \<in> set odc \<Longrightarrow>
   \<exists>b. output_dataset_lines k d = Inr b \<and> set b \<subseteq> set ls"
proof (induction odc arbitrary: ls)
  case Nil
  then show ?case by simp
next
  case (Cons e odc)
  obtain k0 d0 where e: "e = (k0, d0)" by (cases e)
  from Cons.prems(1) obtain b0 more where b0: "output_dataset_lines k0 d0 = Inr b0"
    and more: "output_datasets_lines odc = Inr more" and ls: "ls = b0 @ more"
    unfolding e by (auto simp: bind_res_eq_Inr)
  show ?case
  proof (cases "(k, d) = (k0, d0)")
    case True
    with b0 ls show ?thesis by auto
  next
    case False
    with Cons.prems(2) e have "(k, d) \<in> set odc" by auto
    from Cons.IH [OF more this] ls show ?thesis by auto
  qed
qed

lemma subscript_eq_Inr [simp]: "subscript key field = Inr v \<longleftrightarrow> field = Some v"
  by (cases field) simp_all

lemma generate_tfvars_lines_cases:
  assumes "generate_tfvars_lines cfg = Inr ls"
  obtains pid odc out sdc src where
    "project_id cfg = Some pid"
    "output_datasets_config cfg = Some odc" "output_datasets_lines odc = Inr out"
    "source_datasets_config cfg = Some sdc" "source_datasets_lines sdc = Inr src"
    \<open>ls = [''# GCP Configuration'',
           ''project_id = "'' @ pid @ ''"'',
           ''region     = "'' @ get_default (region cfg) ''asia-northeast1'' @ ''"'',
           '''',
           ''# View Configuration'',
           ''view_prefix = "'' @ get_default (view_prefix cfg) ''filtered_'' @ ''"'',
           '''',
           ''# Output Datasets Configuration'',
           ''output_datasets_config = {'']
          @ out
          @ [''}'',
             '''',
             ''# Source Datasets and Tables Configuration'',
             ''source_datasets_config = {'']
          @ src
          @ [''}'']\<close>
  using assms unfolding generate_tfvars_lines_def
  by (auto simp: bind_res_eq_Inr)

lemma output_block_in_rendering:
  assumes "generate_tfvars_lines cfg = Inr ls" "output_datasets_config cfg = Some odc"
    "(k, d) \<in> set odc"
  shows "\<exists>b. output_dataset_lines k d = Inr b \<and> set b \<subseteq> set ls"
  using assms(1)
proof (rule generate_tfvars_lines_cases)
  fix odc' out pre mid src
  assume "output_datasets_config cfg = Some odc'" and out: "output_datasets_lines odc' = Inr out"
  with assms(2) have "output_datasets_lines odc = Inr out" by simp
  from output_block_in_section [OF this assms(3)]
  obtain b where b: "output_dataset_lines k d = Inr b" "set b \<subseteq> set out" by blast
  assume "ls = pre @ out @ mid @ src @ [''}'']"
  with b show ?thesis by auto
qed

lemma str_int_18: "str_int 18 = ''18''"
  by code_simp

text \<open>
  C5. A blank answer at the months-back prompt gives 18. Every output dataset of an assembled
  configuration, of key \<open>k\<close>, has the dataset id \<open>k_filtered\<close> and the description made
  of \<open>k\<close> in title case, \<open>filtered views for\<close> and the client name. For the key
  \<open>acme_co\<close>, 18 months and a client name whose label form is \<open>acme_co\<close>, the rendered
  block holds the lines for \<open>dataset_id\<close>, \<open>months_back\<close> (the number without quotes) and
  the \<open>client\<close> label, with the renderer's indentation and alignment; and the block of any
  output dataset is part of the rendering of the whole configuration.
\<close>

theorem output_dataset_defaults:
  "(strip l = [] \<longrightarrow> months_back_input (l # ls) = Inr (18, ls)) \<and>
   (main_assemble ls' = Inr r \<longrightarrow>
      (\<exists>odc. output_datasets_config (run_config r) = Some odc \<and>
         (\<forall>(k, d) \<in> set odc.
            dataset_id d = Some (k @ ''_filtered'') \<and>
            output_description d =
              Some (title k @ '' filtered views for '' @ run_client_name r)))) \<and>
   (replace CHR '' '' CHR ''_'' (lower c) = ''acme_co'' \<longrightarrow>
      output_dataset_lines ''acme_co'' (output_dataset_entry ''acme_co'' c 18) =
        Inr [''  \"acme_co\" = {'',
             ''    dataset_id  = \"acme_co_filtered\"'',
             ''    description = \"Acme_Co filtered views for '' @ c @ ''\"'',
             ''    months_back = 18'',
             ''    labels = {'',
             ''      environment = \"production\"'',
             ''      client = \"acme_co\"'',
             ''      team = \"acme_co\"'',
             ''    }'',
             ''  }'',
             '''']) \<and>
   (generate_tfvars_lines cfg = Inr lines \<longrightarrow> output_datasets_config cfg = Some odc' \<longrightarrow>
      (k', d') \<in> set odc' \<longrightarrow>
      (\<exists>b. output_dataset_lines k' d' = Inr b \<and> set b \<subseteq> set lines))"
proof (intro conjI impI)
  assume "strip l = []"
  then show "months_back_input (l # ls) = Inr (18, ls)" by (rule months_back_default)
next
  assume "main_assemble ls' = Inr r"
  from main_assemble_outputs [OF this] show
    "\<exists>odc. output_datasets_config (run_config r) = Some odc \<and>
         (\<forall>(k, d) \<in> set odc.
            dataset_id d = Some (k @ ''_filtered'') \<and>
            output_description d =
              Some (title k @ '' filtered views for '' @ run_client_name r))"
    by (fastforce simp: output_dataset_entry_def)
next
  assume "replace CHR '' '' CHR ''_'' (lower c) = ''acme_co''"
  then show "output_dataset_lines ''acme_co'' (output_dataset_entry ''acme_co'' c 18) =
        Inr [''  \"acme_co\" = {'',
             ''    dataset_id  = \"acme_co_filtered\"'',
             ''    description = \"Acme_Co filtered views for '' @ c @ ''\"'',
             ''    months_back = 18'',
             ''    labels = {'',
             ''      environment = \"production\"'',
             ''      client = \"acme_co\"'',
             ''      team = \"acme_co\"'',
             ''    }'',
             ''  }'',
             '''']"
    by (simp add: output_dataset_lines_def output_dataset_entry_def str_int_18
        title_def is_cased_def upper_char_def lower_char_def uppers_def lowers_def)
next
  assume "generate_tfvars_lines cfg = Inr lines" "output_datasets_config cfg = Some odc'"
    "(k', d') \<in> set odc'"
  then show "\<exists>b. output_dataset_lines k' d' = Inr b \<and> set b \<subseteq> set lines"
    by (rule output_block_in_rendering)
qed

theorem output_dataset_defaults_witness:
  "strip [] = [] \<and> months_back_input [[]] = Inr (18, []) \<and>
   main_assemble session_default =
     Inr \<lparr>run_client_name = ''Acme Co'',
          run_global_filters = [(''status'', [''active'', ''done''])],
          run_config =
            \<lparr>project_id = Some ''proj'',
             region = Some ''asia-northeast1'',
             view_prefix = Some ''filtered_'',
             output_datasets_config =
               Some [(''acme_co'', output_dataset_entry ''acme_co'' ''Acme Co'' 18)],
             source_datasets_config =
               Some (generate_source_datasets_config [(''status'', [''active'', ''done''])]
                       ''acme_co'')\<rparr>,
          run_stdin = []\<rparr> \<and>
   dataset_id (output_dataset_entry ''acme_co'' ''Acme Co'' 18) = Some ''acme_co_filtered'' \<and>
   output_description (output_dataset_entry ''acme_co'' ''Acme Co'' 18) =
     Some ''Acme_Co filtered views for Acme Co'' \<and>
   replace CHR '' '' CHR ''_'' (lower ''Acme Co'') = ''acme_co'' \<and>
   output_dataset_lines ''acme_co'' (output_dataset_entry ''acme_co'' ''Acme Co'' 18) =
     Inr [''  \"acme_co\" = {'',
          ''    dataset_id  = \"acme_co_filtered\"'',
          ''    description = \"Acme_Co filtered views for Acme Co\"'',
          ''    months_back = 18'',
          ''    labels = {'',
          ''      environment = \"production\"'',
          ''      client = \"acme_co\"'',
          ''      team = \"acme_co\"'',
          ''    }'',
          ''  }'',
          ''''] \<and>
   generate_tfvars_lines config_minimal =
     Inr [''# GCP Configuration'',
          ''project_id = \"proj\"'',
          ''region     = \"asia-northeast1\"'',
          '''',
          ''# View Configuration'',
          ''view_prefix = \"filtered_\"'',
          '''',
          ''# Output Datasets Configuration'',
          ''output_datasets_config = {'',
          ''  \"acme_co\" = {'',
          ''    dataset_id  = \"acme_co_filtered\"'',
          ''    description = \"Acme_Co filtered views for Acme Co\"'',
          ''    months_back = 18'',
          ''    labels = {'',
          ''      environment = \"production\"'',
          ''      client = \"acme_co\"'',
          ''      team = \"acme_co\"'',
          ''    }'',
          ''  }'',
          '''',
          ''}'',
          '''',
          ''# Source Datasets and Tables Configuration'',
          ''source_datasets_config = {'',
          ''}'']"
  using output_dataset_defaults
      [where l = "[]" and ls = "[]" and ls' = session_default and c = "''Acme Co''"
         and cfg = config_minimal]
    session_default_run
  by (simp add: string_ops output_dataset_entry_def config_minimal_def
      generate_tfvars_lines_def output_dataset_lines_def str_int_18)

section \<open>Properties of the renderer\<close>

text \<open>
  Each part of the renderer returns its lines exactly on the renderable inputs, and a
  \<open>KeyError\<close> on the others.
\<close>

lemma filter_col_lines_result:
  "(case filter_col_lines fc of
      Inl e \<Rightarrow> \<not> renderable_filter_col fc \<and> (\<exists>k. e = KeyError k)
    | Inr ls \<Rightarrow> renderable_filter_col fc)"
  by (cases "column_name fc"; cases "condition fc"; cases "operator fc")
     (simp_all add: filter_col_lines_def renderable_filter_col_def)

lemma filter_cols_lines_result:
  "(case filter_cols_lines fcs of
      Inl e \<Rightarrow> \<not> list_all renderable_filter_col fcs \<and> (\<exists>k. e = KeyError k)
    | Inr ls \<Rightarrow> list_all renderable_filter_col fcs)"
proof (induction fcs)
  case Nil
  show ?case by simp
next
  case (Cons fc fcs)
  from filter_col_lines_result [of fc] Cons.IH show ?case
    by (auto split: sum.splits)
qed

lemma table_lines_result:
  "(case table_lines k t of
      Inl e \<Rightarrow> \<not> renderable_table t \<and> (\<exists>k. e = KeyError k)
    | Inr ls \<Rightarrow> renderable_table t)"
proof (cases "filter_columns t")
  case None
  then show ?thesis
    by (cases "source_table_id t"; cases "view_name t")
       (simp_all add: table_lines_def renderable_table_def)
next
  case (Some fcs)
  with filter_cols_lines_result [of fcs] show ?thesis
    by (cases "source_table_id t"; cases "view_name t";
        cases "additional_where t"; cases "table_description t")
       (auto simp: table_lines_def renderable_table_def truthy_def split: sum.splits)
qed

lemma tables_lines_result:
  "(case tables_lines ts of
      Inl e \<Rightarrow> \<not> list_all (\<lambda>(k, t). renderable_table t) ts \<and> (\<exists>k. e = KeyError k)
    | Inr ls \<Rightarrow> list_all (\<lambda>(k, t). renderable_table t) ts)"
proof (induction ts)
  case Nil
  show ?case by simp
next
  case (Cons p ts)
  obtain k t where p: "p = (k, t)" by (cases p)
  from table_lines_result [where k = k and t = t] Cons.IH show ?case
    unfolding p by (auto split: sum.splits)
qed

lemma source_dataset_lines_result:
  "(case source_dataset_lines n d of
      Inl e \<Rightarrow> \<not> renderable_source_dataset d \<and> (\<exists>k. e = KeyError k)
    | Inr ls \<Rightarrow> renderable_source_dataset d)"
proof (cases "tables d")
  case None
  then show ?thesis
    by (cases "target_dataset_key d"; cases "source_project_id d"; cases "source_description d")
       (simp_all add: source_dataset_lines_def renderable_source_dataset_def)
next
  case (Some ts)
  with tables_lines_result [of ts] show ?thesis
    by (cases "target_dataset_key d"; cases "source_project_id d"; cases "source_description d")
       (auto simp: source_dataset_lines_def renderable_source_dataset_def split: sum.splits)
qed

lemma source_datasets_lines_result:
  "(case source_datasets_lines sdc of
      Inl e \<Rightarrow> \<not> list_all (\<lambda>(k, d). renderable_source_dataset d) sdc \<and> (\<exists>k. e = KeyError k)
    | Inr ls \<Rightarrow> list_all (\<lambda>(k, d). renderable_source_dataset d) sdc)"
proof (induction sdc)
  case Nil
  show ?case by simp
next
  case (Cons p sdc)
  obtain n d where p: "p = (n, d)" by (cases p)
  from source_dataset_lines_result [where n = n and d = d] Cons.IH show ?case
    unfolding p by (auto split: sum.splits)
qed

lemma output_dataset_lines_result:
  "(case output_dataset_lines k d of
      Inl e \<Rightarrow> \<not> renderable_output_dataset d \<and> (\<exists>k. e = KeyError k)
    | Inr ls \<Rightarrow> renderable_output_dataset d)"
  by (cases "dataset_id d"; cases "output_description d"; cases "months_back d"; cases "labels d")
     (simp_all add: output_dataset_lines_def renderable_output_dataset_def)

lemma output_datasets_lines_result:
  "(case output_datasets_lines odc of
      Inl e \<Rightarrow> \<not> list_all (\<lambda>(k, d). renderable_output_dataset d) odc \<and> (\<exists>k. e = KeyError k)
    | Inr ls \<Rightarrow> list_all (\<lambda>(k, d). renderable_output_dataset d) odc)"
proof (induction odc)
  case Nil
  show ?case by simp
next
  case (Cons p odc)
  obtain k d where p: "p = (k, d)" by (cases p)
  from output_dataset_lines_result [where k = k and d = d] Cons.IH show ?case
    unfolding p by (auto split: sum.splits)
qed

lemma generate_tfvars_lines_result:
  "(case generate_tfvars_lines cfg of
      Inl e \<Rightarrow> \<not> renderable_config cfg \<and> (\<exists>k. e = KeyError k)
    | Inr ls \<Rightarrow> renderable_config cfg)"
proof (cases "project_id cfg")
  case None
  then show ?thesis by (simp add: generate_tfvars_lines_def renderable_config_def)
next
  case pid: (Some pid)
  show ?thesis
  proof (cases "output_datasets_config cfg")
    case None
    with pid show ?thesis by (simp add: generate_tfvars_lines_def renderable_config_def)
  next
    case odc: (Some odc)
    show ?thesis
    proof (cases "source_datasets_config cfg")
      case None
      with pid odc output_datasets_lines_result [of odc] show ?thesis
        by (auto simp: generate_tfvars_lines_def renderable_config_def split: sum.splits)
    next
      case (Some sdc)
      with pid odc output_datasets_lines_result [of odc] source_datasets_lines_result [of sdc]
      show ?thesis
        by (auto simp: generate_tfvars_lines_def renderable_config_def split: sum.splits)
    qed
  qed
qed

lemmas renderer_defs =
  generate_tfvars_content_def generate_tfvars_lines_def output_dataset_lines_def
  source_dataset_lines_def table_lines_def filter_col_lines_def truthy_def get_default_def

lemmas renderable_defs =
  renderable_config_def renderable_output_dataset_def renderable_source_dataset_def renderable_table_def renderable_filter_col_def

text \<open>
  C10. A configuration without \<open>region\<close> renders as the same configuration with the region
  \<open>asia-northeast1\<close>, and one without \<open>view_prefix\<close> as with the prefix \<open>filtered_\<close>;
  the third and the sixth line carry these defaults. Rendering succeeds exactly when
  \<open>project_id\<close>, \<open>output_datasets_config\<close> and \<open>source_datasets_config\<close> are present
  and the datasets in them are renderable: \<open>region\<close> and \<open>view_prefix\<close> are not asked for.
\<close>

theorem render_defaults:
  "generate_tfvars_content (cfg\<lparr>region := None\<rparr>) =
     generate_tfvars_content (cfg\<lparr>region := Some ''asia-northeast1''\<rparr>) \<and>
   generate_tfvars_content (cfg\<lparr>view_prefix := None\<rparr>) =
     generate_tfvars_content (cfg\<lparr>view_prefix := Some ''filtered_''\<rparr>) \<and>
   ((\<exists>s. generate_tfvars_content cfg = Inr s) \<longleftrightarrow>
      project_id cfg \<noteq> None \<and>
      (\<exists>odc. output_datasets_config cfg = Some odc \<and>
         list_all (\<lambda>(k, d). renderable_output_dataset d) odc) \<and>
      (\<exists>sdc. source_datasets_config cfg = Some sdc \<and>
         list_all (\<lambda>(k, d). renderable_source_dataset d) sdc)) \<and>
   (generate_tfvars_lines cfg = Inr ls \<longrightarrow>
      (region cfg = None \<longrightarrow> ls ! 2 = ''region     = \"asia-northeast1\"'') \<and>
      (view_prefix cfg = None \<longrightarrow> ls ! 5 = ''view_prefix = \"filtered_\"''))"
proof (intro conjI)
  show "generate_tfvars_content (cfg\<lparr>region := None\<rparr>) =
     generate_tfvars_content (cfg\<lparr>region := Some ''asia-northeast1''\<rparr>)"
    by (simp add: generate_tfvars_content_def generate_tfvars_lines_def get_default_def)
  show "generate_tfvars_content (cfg\<lparr>view_prefix := None\<rparr>) =
     generate_tfvars_content (cfg\<lparr>view_prefix := Some ''filtered_''\<rparr>)"
    by (simp add: generate_tfvars_content_def generate_tfvars_lines_def get_default_def)
  have "(\<exists>s. generate_tfvars_content cfg = Inr s) \<longleftrightarrow> renderable_config cfg"
    using generate_tfvars_lines_result [of cfg]
    by (cases "generate_tfvars_lines cfg") (auto simp: generate_tfvars_content_def)
  also have "renderable_config cfg \<longleftrightarrow>
      project_id cfg \<noteq> None \<and>
      (\<exists>odc. output_datasets_config cfg = Some odc \<and>
         list_all (\<lambda>(k, d). renderable_output_dataset d) odc) \<and>
      (\<exists>sdc. source_datasets_config cfg = Some sdc \<and>
         list_all (\<lambda>(k, d). renderable_source_dataset d) sdc)"
    by (auto simp: renderable_config_def split: option.splits)
  finally show "(\<exists>s. generate_tfvars_content cfg = Inr s) \<longleftrightarrow>
      project_id cfg \<noteq> None \<and>
      (\<exists>odc. output_datasets_config cfg = Some odc \<and>
         list_all (\<lambda>(k, d). renderable_output_dataset d) odc) \<and>
      (\<exists>sdc. source_datasets_config cfg = Some sdc \<and>
         list_all (\<lambda>(k, d). renderable_source_dataset d) sdc)" .
  show "generate_tfvars_lines cfg = Inr ls \<longrightarrow>
      (region cfg = None \<longrightarrow> ls ! 2 = ''region     = \"asia-northeast1\"'') \<and>
      (view_prefix cfg = None \<longrightarrow> ls ! 5 = ''view_prefix = \"filtered_\"'')"
  proof
    assume "generate_tfvars_lines cfg = Inr ls"
    then show "(region cfg = None \<longrightarrow> ls ! 2 = ''region     = \"asia-northeast1\"'') \<and>
      (view_prefix cfg = None \<longrightarrow> ls ! 5 = ''view_prefix = \"filtered_\"'')"
      by (rule generate_tfvars_lines_cases) (simp add: get_default_def nth_Cons')
  qed
qed

theorem render_defaults_witness:
  "region config_minimal = None \<and> view_prefix config_minimal = None \<and>
   generate_tfvars_lines config_minimal =
     Inr [''# GCP Configuration'',
          ''project_id = \"proj\"'',
          ''region     = \"asia-northeast1\"'',
          '''',
          ''# View Configuration'',
          ''view_prefix = \"filtered_\"'',
          '''',
          ''# Output Datasets Configuration'',
          ''output_datasets_config = {'',
          ''  \"acme_co\" = {'',
          ''    dataset_id  = \"acme_co_filtered\"'',
          ''    description = \"Acme_Co filtered views for Acme Co\"'',
          ''    months_back = 18'',
          ''    labels = {'',
          ''      environment = \"production\"'',
          ''      client = \"acme_co\"'',
          ''      team = \"acme_co\"'',
          ''    }'',
          ''  }'',
          '''',
          ''}'',
          '''',
          ''# Source Datasets and Tables Configuration'',
          ''source_datasets_config = {'',
          ''}''] \<and>
   generate_tfvars_content (config_minimal\<lparr>project_id := None\<rparr>) =
     Inl (KeyError ''project_id'') \<and>
   generate_tfvars_content (config_minimal\<lparr>output_datasets_config := None\<rparr>) =
     Inl (KeyError ''output_datasets_config'') \<and>
   generate_tfvars_content (config_minimal\<lparr>source_datasets_config := None\<rparr>) =
     Inl (KeyError ''source_datasets_config'')"
  using render_defaults [of config_minimal]
  by (simp add: config_minimal_def renderer_defs renderable_defs
      output_dataset_entry_def string_ops str_int_18)

text \<open>
  A section is the concatenation of the blocks of its entries: a line with some property is
  in the section exactly when it is in the block of one of the entries.
\<close>

lemma filter_cols_lines_ex:
  "filter_cols_lines fcs = Inr ls \<Longrightarrow>
   (\<exists>l \<in> set ls. Q l) \<longleftrightarrow>
   (\<exists>fc \<in> set fcs. \<exists>b. filter_col_lines fc = Inr b \<and> (\<exists>l \<in> set b. Q l))"
proof (induction fcs arbitrary: ls)
  case Nil
  then show ?case by simp
next
  case (Cons fc fcs)
  from Cons.prems obtain b more where b: "filter_col_lines fc = Inr b"
    and more: "filter_cols_lines fcs = Inr more" and ls: "ls = b @ more"
    by (auto simp: bind_res_eq_Inr)
  show ?case
    unfolding ls using b by (simp add: bex_Un Cons.IH [OF more])
qed

lemma tables_lines_ex:
  "tables_lines ts = Inr ls \<Longrightarrow>
   (\<exists>l \<in> set ls. Q l) \<longleftrightarrow>
   (\<exists>(k, t) \<in> set ts. \<exists>b. table_lines k t = Inr b \<and> (\<exists>l \<in> set b. Q l))"
proof (induction ts arbitrary: ls)
  case Nil
  then show ?case by simp
next
  case (Cons p ts)
  obtain k t where p: "p = (k, t)" by (cases p)
  from Cons.prems obtain b more where b: "table_lines k t = Inr b"
    and more: "tables_lines ts = Inr more" and ls: "ls = b @ more"
    unfolding p by (auto simp: bind_res_eq_Inr)
  show ?case
    unfolding ls p using b by (simp add: bex_Un Cons.IH [OF more])
qed

lemma source_datasets_lines_ex:
  "source_datasets_lines sdc = Inr ls \<Longrightarrow>
   (\<exists>l \<in> set ls. Q l) \<longleftrightarrow>
   (\<exists>(n, d) \<in> set sdc. \<exists>b. source_dataset_lines n d = Inr b \<and> (\<exists>l \<in> set b. Q l))"
proof (induction sdc arbitrary: ls)
  case Nil
  then show ?case by simp
next
  case (Cons p sdc)
  obtain n d where p: "p = (n, d)" by (cases p)
  from Cons.prems obtain b more where b: "source_dataset_lines n d = Inr b"
    and more: "source_datasets_lines sdc = Inr more" and ls: "ls = b @ more"
    unfolding p by (auto simp: bind_res_eq_Inr)
  show ?case
    unfolding ls p using b by (simp add: bex_Un Cons.IH [OF more])
qed

text \<open>The lines of a filter column.\<close>

lemma filter_col_lines_cases:
  assumes "filter_col_lines fc = Inr b"
  obtains cn cond opr where
    "column_name fc = Some cn" "condition fc = Some cond" "operator fc = Some opr"
    \<open>b = [''          {'',
          ''            column_name = "'' @ cn @ ''"'',
          ''            condition   = "'' @ cond @ ''"'']
         @ (if opr \<noteq> ''AND'' then [''            operator    = "'' @ opr @ ''"''] else [])
         @ [''          }'']\<close>
  using assms unfolding filter_col_lines_def
  by (cases "operator fc") (auto simp: bind_res_eq_Inr split: if_splits)

lemma filter_col_block:
  assumes "filter_col_lines fc = Inr b"
  shows "(\<exists>l \<in> set b. field_line ''operator'' l) \<longleftrightarrow> operator fc \<noteq> Some ''AND''"
    and "\<forall>l \<in> set b. \<not> field_line ''additional_where'' l"
    and "\<forall>l \<in> set b. \<not> field_line ''description'' l"
    and "\<forall>l \<in> set b. \<not> field_line ''source_project_id'' l"
    and "\<forall>l \<in> set b. prefix ''          '' l"
  using assms
  by (rule filter_col_lines_cases; simp add: field_line_def)+

lemma filter_col_lines_ok: "(\<exists>b. filter_col_lines fc = Inr b) \<longleftrightarrow> renderable_filter_col fc"
  using filter_col_lines_result [of fc] by (cases "filter_col_lines fc") auto

lemma filter_cols_lines_ok:
  "(\<exists>b. filter_cols_lines fcs = Inr b) \<longleftrightarrow> list_all renderable_filter_col fcs"
  using filter_cols_lines_result [of fcs] by (cases "filter_cols_lines fcs") auto

lemma table_lines_ok: "(\<exists>b. table_lines k t = Inr b) \<longleftrightarrow> renderable_table t"
  using table_lines_result [where k = k and t = t] by (cases "table_lines k t") auto

lemma tables_lines_ok:
  "(\<exists>b. tables_lines ts = Inr b) \<longleftrightarrow> list_all (\<lambda>(k, t). renderable_table t) ts"
  using tables_lines_result [of ts] by (cases "tables_lines ts") auto

lemma source_dataset_lines_ok:
  "(\<exists>b. source_dataset_lines n d = Inr b) \<longleftrightarrow> renderable_source_dataset d"
  using source_dataset_lines_result [where n = n and d = d]
  by (cases "source_dataset_lines n d") auto

text \<open>The lines of a table and of a source dataset.\<close>

lemma table_lines_cases:
  assumes "table_lines k t = Inr b"
  obtains sid vn fcs fc_lines where
    "source_table_id t = Some sid" "view_name t = Some vn" "filter_columns t = Some fcs"
    "filter_cols_lines fcs = Inr fc_lines"
    \<open>b = [''      "'' @ k @ ''" = {'',
          ''        source_table_id = "'' @ sid @ ''"'',
          ''        view_name      = "'' @ vn @ ''"'',
          ''        filter_columns = ['']
         @ fc_lines
         @ [''        ]'']
         @ (case additional_where t of
              None \<Rightarrow> []
            | Some w \<Rightarrow> if w \<noteq> [] then [''        additional_where = "'' @ w @ ''"''] else [])
         @ (case table_description t of
              None \<Rightarrow> []
            | Some x \<Rightarrow> if x \<noteq> [] then [''        description     = "'' @ x @ ''"''] else [])
         @ [''      }'', '''']\<close>
  using assms unfolding table_lines_def
  by (cases "additional_where t"; cases "table_description t")
     (auto simp: bind_res_eq_Inr truthy_def split: if_splits)

lemma table_block:
  assumes "table_lines k t = Inr b"
  shows "(\<exists>l \<in> set b. field_line ''additional_where'' l) \<longleftrightarrow>
           (\<exists>w. additional_where t = Some w \<and> w \<noteq> [])"
    and "(\<exists>l \<in> set b. field_line ''description'' l) \<longleftrightarrow>
           (\<exists>x. table_description t = Some x \<and> x \<noteq> [])"
    and "(\<exists>l \<in> set b. field_line ''operator'' l) \<longleftrightarrow>
           (\<exists>fcs. filter_columns t = Some fcs \<and> (\<exists>fc \<in> set fcs. operator fc \<noteq> Some ''AND''))"
    and "\<forall>l \<in> set b. \<not> field_line ''source_project_id'' l"
    and "\<forall>l \<in> set b. field_line ''additional_where'' l \<longrightarrow>
           (\<exists>w. additional_where t = Some w \<and> w \<noteq> [] \<and>
              l = ''        additional_where = \"'' @ w @ ''\"'')"
    and "\<forall>l \<in> set b. field_line ''description'' l \<longrightarrow>
           (\<exists>x. table_description t = Some x \<and> x \<noteq> [] \<and>
              l = ''        description     = \"'' @ x @ ''\"'')"
proof -
  from assms obtain sid vn fcs fc_lines where
    fcs: "filter_columns t = Some fcs" and fcl: "filter_cols_lines fcs = Inr fc_lines"
    and b: \<open>b = [''      "'' @ k @ ''" = {'',
          ''        source_table_id = "'' @ sid @ ''"'',
          ''        view_name      = "'' @ vn @ ''"'',
          ''        filter_columns = ['']
         @ fc_lines
         @ [''        ]'']
         @ (case additional_where t of
              None \<Rightarrow> []
            | Some w \<Rightarrow> if w \<noteq> [] then [''        additional_where = "'' @ w @ ''"''] else [])
         @ (case table_description t of
              None \<Rightarrow> []
            | Some x \<Rightarrow> if x \<noteq> [] then [''        description     = "'' @ x @ ''"''] else [])
         @ [''      }'', '''']\<close>
    by (rule table_lines_cases)
  have no_where: "\<not> (\<exists>l \<in> set fc_lines. field_line ''additional_where'' l)"
    unfolding filter_cols_lines_ex [OF fcl] by (auto dest: filter_col_block(2))
  have no_descr: "\<not> (\<exists>l \<in> set fc_lines. field_line ''description'' l)"
    unfolding filter_cols_lines_ex [OF fcl] by (auto dest: filter_col_block(3))
  have no_proj: "\<not> (\<exists>l \<in> set fc_lines. field_line ''source_project_id'' l)"
    unfolding filter_cols_lines_ex [OF fcl] by (auto dest: filter_col_block(4))
  have opr: "(\<exists>l \<in> set fc_lines. field_line ''operator'' l) \<longleftrightarrow>
      (\<exists>fc \<in> set fcs. operator fc \<noteq> Some ''AND'')"
  proof -
    have "list_all renderable_filter_col fcs"
      using filter_cols_lines_ok [of fcs] fcl by simp
    then have "\<forall>fc \<in> set fcs. \<exists>b. filter_col_lines fc = Inr b"
      by (simp add: list_all_iff filter_col_lines_ok)
    then show ?thesis
      unfolding filter_cols_lines_ex [OF fcl]
      by (metis filter_col_block(1))
  qed
  show "(\<exists>l \<in> set b. field_line ''additional_where'' l) \<longleftrightarrow>
           (\<exists>w. additional_where t = Some w \<and> w \<noteq> [])"
    using no_where unfolding b
    by (cases "additional_where t"; cases "table_description t")
       (auto simp: field_line_def)
  show "(\<exists>l \<in> set b. field_line ''description'' l) \<longleftrightarrow>
           (\<exists>x. table_description t = Some x \<and> x \<noteq> [])"
    using no_descr unfolding b
    by (cases "additional_where t"; cases "table_description t")
       (auto simp: field_line_def)
  show "(\<exists>l \<in> set b. field_line ''operator'' l) \<longleftrightarrow>
           (\<exists>fcs. filter_columns t = Some fcs \<and> (\<exists>fc \<in> set fcs. operator fc \<noteq> Some ''AND''))"
    using opr fcs unfolding b
    by (cases "additional_where t"; cases "table_description t")
       (auto simp: field_line_def)
  show "\<forall>l \<in> set b. \<not> field_line ''source_project_id'' l"
    using no_proj unfolding b
    by (cases "additional_where t"; cases "table_description t")
       (auto simp: field_line_def)
  show "\<forall>l \<in> set b. field_line ''additional_where'' l \<longrightarrow>
           (\<exists>w. additional_where t = Some w \<and> w \<noteq> [] \<and>
              l = ''        additional_where = \"'' @ w @ ''\"'')"
    using no_where unfolding b
    by (cases "additional_where t"; cases "table_description t")
       (auto simp: field_line_def)
  show "\<forall>l \<in> set b. field_line ''description'' l \<longrightarrow>
           (\<exists>x. table_description t = Some x \<and> x \<noteq> [] \<and>
              l = ''        description     = \"'' @ x @ ''\"'')"
    using no_descr unfolding b
    by (cases "additional_where t"; cases "table_description t")
       (auto simp: field_line_def)
qed

lemma source_dataset_lines_cases:
  assumes "source_dataset_lines n d = Inr b"
  obtains tk descr ts tbl_lines where
    "target_dataset_key d = Some tk" "source_description d = Some descr" "tables d = Some ts"
    "tables_lines ts = Inr tbl_lines"
    \<open>b = [''  "'' @ n @ ''" = {'',
          ''    target_dataset_key = "'' @ tk @ ''"'']
         @ (case source_project_id d of
              None \<Rightarrow> []
            | Some p \<Rightarrow> [''    source_project_id  = "'' @ p @ ''"''])
         @ [''    description        = "'' @ descr @ ''"'',
            ''    tables = {'']
         @ tbl_lines
         @ [''    }'', ''  }'', '''']\<close>
  using assms unfolding source_dataset_lines_def
  by (cases "source_project_id d") (auto simp: bind_res_eq_Inr)

lemma source_dataset_block:
  assumes "source_dataset_lines n d = Inr b"
  shows "(\<exists>l \<in> set b. field_line ''source_project_id'' l) \<longleftrightarrow> source_project_id d \<noteq> None"
    and "(\<exists>l \<in> set b. field_line ''additional_where'' l) \<longleftrightarrow>
           (\<exists>ts. tables d = Some ts \<and>
              (\<exists>(k, t) \<in> set ts. \<exists>w. additional_where t = Some w \<and> w \<noteq> []))"
    and "tables d = Some ts' \<Longrightarrow> (k, t) \<in> set ts' \<Longrightarrow>
           table_description t = Some x \<Longrightarrow> x \<noteq> [] \<Longrightarrow>
           ''        description     = \"'' @ x @ ''\"'' \<in> set b"
proof -
  from assms obtain tk descr ts tbl_lines where
    ts: "tables d = Some ts" and tl: "tables_lines ts = Inr tbl_lines"
    and b: \<open>b = [''  "'' @ n @ ''" = {'',
          ''    target_dataset_key = "'' @ tk @ ''"'']
         @ (case source_project_id d of
              None \<Rightarrow> []
            | Some p \<Rightarrow> [''    source_project_id  = "'' @ p @ ''"''])
         @ [''    description        = "'' @ descr @ ''"'',
            ''    tables = {'']
         @ tbl_lines
         @ [''    }'', ''  }'', '''']\<close>
    by (rule source_dataset_lines_cases)
  have each: "\<forall>(k, t) \<in> set ts. \<exists>b. table_lines k t = Inr b"
  proof -
    have "list_all (\<lambda>(k, t). renderable_table t) ts"
      using tables_lines_ok [of ts] tl by simp
    then show ?thesis
      by (auto simp: list_all_iff table_lines_ok)
  qed
  have no_proj: "\<not> (\<exists>l \<in> set tbl_lines. field_line ''source_project_id'' l)"
    unfolding tables_lines_ex [OF tl] by (auto dest: table_block(4))
  have wh: "(\<exists>l \<in> set tbl_lines. field_line ''additional_where'' l) \<longleftrightarrow>
      (\<exists>(k, t) \<in> set ts. \<exists>w. additional_where t = Some w \<and> w \<noteq> [])"
  proof
    assume "\<exists>l \<in> set tbl_lines. field_line ''additional_where'' l"
    then obtain k t tb where kt: "(k, t) \<in> set ts" and tb: "table_lines k t = Inr tb"
      and "\<exists>l \<in> set tb. field_line ''additional_where'' l"
      unfolding tables_lines_ex [OF tl] by auto
    with table_block(1) [OF tb] have "\<exists>w. additional_where t = Some w \<and> w \<noteq> []"
      by simp
    with kt show "\<exists>(k, t) \<in> set ts. \<exists>w. additional_where t = Some w \<and> w \<noteq> []"
      by blast
  next
    assume "\<exists>(k, t) \<in> set ts. \<exists>w. additional_where t = Some w \<and> w \<noteq> []"
    then obtain k t where kt: "(k, t) \<in> set ts"
      and w: "\<exists>w. additional_where t = Some w \<and> w \<noteq> []"
      by blast
    from each kt obtain tb where tb: "table_lines k t = Inr tb" by auto
    from table_block(1) [OF tb] w have "\<exists>l \<in> set tb. field_line ''additional_where'' l"
      by simp
    with kt tb show "\<exists>l \<in> set tbl_lines. field_line ''additional_where'' l"
      unfolding tables_lines_ex [OF tl] by blast
  qed
  show "(\<exists>l \<in> set b. field_line ''source_project_id'' l) \<longleftrightarrow> source_project_id d \<noteq> None"
    using no_proj unfolding b
    by (cases "source_project_id d") (auto simp: field_line_def)
  show "(\<exists>l \<in> set b. field_line ''additional_where'' l) \<longleftrightarrow>
           (\<exists>ts. tables d = Some ts \<and>
              (\<exists>(k, t) \<in> set ts. \<exists>w. additional_where t = Some w \<and> w \<noteq> []))"
    using wh ts unfolding b
    by (cases "source_project_id d") (auto simp: field_line_def)
  show "''        description     = \"'' @ x @ ''\"'' \<in> set b"
    if "tables d = Some ts'" and kt: "(k, t) \<in> set ts'"
      and x: "table_description t = Some x" "x \<noteq> []"
  proof -
    from that ts have kt: "(k, t) \<in> set ts" by simp
    with each obtain tb where tb: "table_lines k t = Inr tb" by auto
    then have "''        description     = \"'' @ x @ ''\"'' \<in> set tb"
      by (rule table_lines_cases) (simp add: x)
    with tb kt have "\<exists>l \<in> set tbl_lines. l = ''        description     = \"'' @ x @ ''\"''"
      unfolding tables_lines_ex [OF tl] by auto
    then show ?thesis
      unfolding b by simp
  qed
qed

text \<open>
  C6, as amended. In the block of a table an \<open>additional_where\<close> line and a
  \<open>description\<close> line stand exactly when the field is present and not empty, and never with
  an empty value. A \<open>source_project_id\<close> line stands in the block of a source dataset exactly
  when the field is present, empty or not. An \<open>operator\<close> line stands in the block of a
  filter column exactly when the operator is not \<open>AND\<close>, the empty operator included.
\<close>

theorem optional_fields:
  "(filter_col_lines fc = Inr b1 \<longrightarrow>
      ((\<exists>l \<in> set b1. field_line ''operator'' l) \<longleftrightarrow> operator fc \<noteq> Some ''AND'')) \<and>
   (table_lines k t = Inr b2 \<longrightarrow>
      ((\<exists>l \<in> set b2. field_line ''additional_where'' l) \<longleftrightarrow>
         (\<exists>w. additional_where t = Some w \<and> w \<noteq> [])) \<and>
      ((\<exists>l \<in> set b2. field_line ''description'' l) \<longleftrightarrow>
         (\<exists>x. table_description t = Some x \<and> x \<noteq> [])) \<and>
      ''        additional_where = \"\"'' \<notin> set b2 \<and>
      ''        description     = \"\"'' \<notin> set b2) \<and>
   (source_dataset_lines n d = Inr b3 \<longrightarrow>
      ((\<exists>l \<in> set b3. field_line ''source_project_id'' l) \<longleftrightarrow> source_project_id d \<noteq> None))"
proof (intro conjI impI)
  assume "filter_col_lines fc = Inr b1"
  then show "(\<exists>l \<in> set b1. field_line ''operator'' l) \<longleftrightarrow> operator fc \<noteq> Some ''AND''"
    by (rule filter_col_block(1))
next
  assume b2: "table_lines k t = Inr b2"
  show "(\<exists>l \<in> set b2. field_line ''additional_where'' l) \<longleftrightarrow>
         (\<exists>w. additional_where t = Some w \<and> w \<noteq> [])"
    by (rule table_block(1) [OF b2])
  show "(\<exists>l \<in> set b2. field_line ''description'' l) \<longleftrightarrow>
         (\<exists>x. table_description t = Some x \<and> x \<noteq> [])"
    by (rule table_block(2) [OF b2])
  show "''        additional_where = \"\"'' \<notin> set b2"
    using table_block(5) [OF b2] by (auto simp: field_line_def)
  show "''        description     = \"\"'' \<notin> set b2"
    using table_block(6) [OF b2] by (auto simp: field_line_def)
next
  assume "source_dataset_lines n d = Inr b3"
  then show "(\<exists>l \<in> set b3. field_line ''source_project_id'' l) \<longleftrightarrow> source_project_id d \<noteq> None"
    by (rule source_dataset_block(1))
qed

theorem optional_fields_witness:
  "filter_col_lines \<lparr>column_name = Some ''status'', condition = Some ''IS NOT NULL'',
                      operator = Some ''OR''\<rparr> =
     Inr [''          {'',
          ''            column_name = \"status\"'',
          ''            condition   = \"IS NOT NULL\"'',
          ''            operator    = \"OR\"'',
          ''          }''] \<and>
   table_lines ''orders''
     \<lparr>source_table_id = Some ''orders'', view_name = Some ''orders'',
      filter_columns = Some [], additional_where = Some [],
      table_description = Some ''orders filtered view''\<rparr> =
     Inr [''      \"orders\" = {'',
          ''        source_table_id = \"orders\"'',
          ''        view_name      = \"orders\"'',
          ''        filter_columns = ['',
          ''        ]'',
          ''        description     = \"orders filtered view\"'',
          ''      }'',
          ''''] \<and>
   source_dataset_lines ''raw_lake''
     \<lparr>target_dataset_key = Some ''acme_co'', source_project_id = None,
      source_description = Some ''Raw data lake'', tables = Some []\<rparr> =
     Inr [''  \"raw_lake\" = {'',
          ''    target_dataset_key = \"acme_co\"'',
          ''    description        = \"Raw data lake\"'',
          ''    tables = {'',
          ''    }'',
          ''  }'',
          '''']"
  using optional_fields
    [of "\<lparr>column_name = Some ''status'', condition = Some ''IS NOT NULL'',
          operator = Some ''OR''\<rparr>" _
        "''orders''"
        "\<lparr>source_table_id = Some ''orders'', view_name = Some ''orders'',
          filter_columns = Some [], additional_where = Some [],
          table_description = Some ''orders filtered view''\<rparr>" _
        "''raw_lake''"
        "\<lparr>target_dataset_key = Some ''acme_co'', source_project_id = None,
          source_description = Some ''Raw data lake'', tables = Some []\<rparr>"]
  by (simp add: renderer_defs)

text \<open>
  C6 as it is stated fails: a source dataset with an empty \<open>source_project_id\<close> and a filter
  column with an empty \<open>operator\<close> both give a line with an empty value, while the empty
  \<open>additional_where\<close> and description of the table give none.
\<close>

theorem optional_fields_counterexample:
  "generate_tfvars_lines config_empty_fields =
     Inr [''# GCP Configuration'',
          ''project_id = \"proj\"'',
          ''region     = \"asia-northeast1\"'',
          '''',
          ''# View Configuration'',
          ''view_prefix = \"filtered_\"'',
          '''',
          ''# Output Datasets Configuration'',
          ''output_datasets_config = {'',
          ''}'',
          '''',
          ''# Source Datasets and Tables Configuration'',
          ''source_datasets_config = {'',
          ''  \"raw_lake\" = {'',
          ''    target_dataset_key = \"acme_co\"'',
          ''    source_project_id  = \"\"'',
          ''    description        = \"Raw data lake\"'',
          ''    tables = {'',
          ''      \"orders\" = {'',
          ''        source_table_id = \"orders\"'',
          ''        view_name      = \"orders\"'',
          ''        filter_columns = ['',
          ''          {'',
          ''            column_name = \"status\"'',
          ''            condition   = \"IS NOT NULL\"'',
          ''            operator    = \"\"'',
          ''          }'',
          ''        ]'',
          ''      }'',
          '''',
          ''    }'',
          ''  }'',
          '''',
          ''}'']"
  by (simp add: config_empty_fields_def renderer_defs)

text \<open>The configuration that \<open>main\<close> assembles is renderable.\<close>

lemma generated_filter_columns_renderable:
  "list_all renderable_filter_col (get_table_filter_columns k gf)"
  by (simp add: get_table_filter_columns_def filter_loop_eq list_all_iff renderable_filter_col_def)

lemma generated_tables:
  "(k, t) \<in> set (tables_loop gf ts []) \<Longrightarrow>
   t = \<lparr>source_table_id = Some k, view_name = Some k,
        filter_columns = Some (get_table_filter_columns k gf),
        additional_where = Some [],
        table_description = Some (k @ '' filtered view'')\<rparr>"
  by (drule tables_loop_entries) simp

lemma generated_datasets_renderable:
  "list_all (\<lambda>(n, d). renderable_source_dataset d) (generate_source_datasets_config gf ck)"
proof -
  have "renderable_source_dataset d" if "(n, d) \<in> set (generate_source_datasets_config gf ck)" for n d
  proof -
    from generated_datasets [OF that] obtain descr ts where
      d: "d = \<lparr>target_dataset_key = Some ck, source_project_id = None,
               source_description = Some descr, tables = Some (tables_loop gf ts [])\<rparr>"
      by blast
    have "renderable_table t" if "(k, t) \<in> set (tables_loop gf ts [])" for k t
      using generated_tables [OF that] generated_filter_columns_renderable [of k gf]
      by (simp add: renderable_table_def)
    then show ?thesis
      unfolding d by (auto simp: renderable_source_dataset_def list_all_iff)
  qed
  then show ?thesis by (auto simp: list_all_iff)
qed

lemma source_section_in_rendering:
  assumes "generate_tfvars_lines cfg = Inr ls" "source_datasets_config cfg = Some sdc"
  shows "\<exists>src pre. source_datasets_lines sdc = Inr src \<and> ls = pre @ src @ [''}'']"
  using assms(1)
proof (rule generate_tfvars_lines_cases)
  fix sdc' src head out mid
  assume "source_datasets_config cfg = Some sdc'" and "source_datasets_lines sdc' = Inr src"
    and "ls = head @ out @ mid @ src @ [''}'']"
  with assms(2) have "source_datasets_lines sdc = Inr src"
    and "ls = (head @ out @ mid) @ src @ [''}'']"
    by simp_all
  then show ?thesis by blast
qed

lemma main_assemble_renderable:
  assumes "main_assemble ls = Inr r"
  shows "renderable_config (run_config r)"
proof -
  from main_assemble_outputs [OF assms] obtain odc where
    odc: "output_datasets_config (run_config r) = Some odc"
    and ent: "\<forall>(k, d) \<in> set odc. \<exists>m. d = output_dataset_entry k (run_client_name r) m"
    by blast
  from ent have "list_all (\<lambda>(k, d). renderable_output_dataset d) odc"
    by (auto simp: list_all_iff renderable_output_dataset_def output_dataset_entry_def)
  moreover from assms obtain pid gf ck where
    "project_id (run_config r) = Some pid"
    "source_datasets_config (run_config r) = Some (generate_source_datasets_config gf ck)"
    by (rule main_assemble_cases) simp
  ultimately show ?thesis
    using odc generated_datasets_renderable by (simp add: renderable_config_def)
qed

text \<open>
  C9. In every configuration that \<open>main\<close> assembles no source dataset has a
  \<open>source_project_id\<close>, every table has the empty string as \<open>additional_where\<close> and its own
  name followed by \<open>filtered view\<close> as description. The source datasets render, as the
  last section of the rendering of the whole configuration; no line of the section sets
  \<open>source_project_id\<close> or \<open>additional_where\<close>, and the section has the description line of
  every table.
\<close>

theorem assembled_sources:
  "main_assemble ls = Inr r \<Longrightarrow>
   \<exists>sdc lines pre.
     source_datasets_config (run_config r) = Some sdc \<and>
     (\<forall>(n, d) \<in> set sdc.
        source_project_id d = None \<and>
        (\<exists>ts. tables d = Some ts \<and>
           (\<forall>(k, t) \<in> set ts.
              additional_where t = Some [] \<and>
              table_description t = Some (k @ '' filtered view'') \<and>
              ''        description     = \"'' @ k @ '' filtered view\"'' \<in> set lines))) \<and>
     source_datasets_lines sdc = Inr lines \<and>
     generate_tfvars_lines (run_config r) = Inr (pre @ lines @ [''}'']) \<and>
     (\<forall>l \<in> set lines.
        \<not> field_line ''source_project_id'' l \<and> \<not> field_line ''additional_where'' l)"
proof -
  assume run: "main_assemble ls = Inr r"
  then obtain gf ck where
    sdc: "source_datasets_config (run_config r) = Some (generate_source_datasets_config gf ck)"
    by (rule main_assemble_cases) simp
  let ?sdc = "generate_source_datasets_config gf ck"
  from main_assemble_renderable [OF run] obtain all_lines where
    all_lines: "generate_tfvars_lines (run_config r) = Inr all_lines"
    using generate_tfvars_lines_result [of "run_config r"]
    by (cases "generate_tfvars_lines (run_config r)") auto
  from source_section_in_rendering [OF all_lines sdc] obtain lines pre where
    lines: "source_datasets_lines ?sdc = Inr lines" and pre: "all_lines = pre @ lines @ [''}'']"
    by blast
  have entries: "source_project_id d = None \<and>
        (\<exists>ts. tables d = Some ts \<and>
           (\<forall>(k, t) \<in> set ts.
              additional_where t = Some [] \<and>
              table_description t = Some (k @ '' filtered view'') \<and>
              ''        description     = \"'' @ k @ '' filtered view\"'' \<in> set lines))"
    if nd: "(n, d) \<in> set ?sdc" for n d
  proof -
    from generated_datasets [OF nd] obtain descr ts where
      d: "d = \<lparr>target_dataset_key = Some ck, source_project_id = None,
               source_description = Some descr, tables = Some (tables_loop gf ts [])\<rparr>"
      by blast
    from generated_datasets_renderable [of gf ck] nd have "renderable_source_dataset d"
      by (auto simp: list_all_iff)
    then obtain b where b: "source_dataset_lines n d = Inr b"
      using source_dataset_lines_ok [of n d] by blast
    have "additional_where t = Some [] \<and>
          table_description t = Some (k @ '' filtered view'') \<and>
          ''        description     = \"'' @ k @ '' filtered view\"'' \<in> set lines"
      if kt: "(k, t) \<in> set (tables_loop gf ts [])" for k t
    proof -
      from generated_tables [OF kt]
      have t: "additional_where t = Some []" "table_description t = Some (k @ '' filtered view'')"
        by simp_all
      have "tables d = Some (tables_loop gf ts [])" by (simp add: d)
      from source_dataset_block(3) [OF b this kt t(2)]
      have "''        description     = \"'' @ k @ '' filtered view\"'' \<in> set b"
        by simp
      with nd b have "\<exists>l \<in> set lines. l = ''        description     = \"'' @ k @ '' filtered view\"''"
        unfolding source_datasets_lines_ex [OF lines] by blast
      with t show ?thesis by simp
    qed
    then show ?thesis unfolding d by auto
  qed
  have no_proj: "\<not> (\<exists>l \<in> set lines. field_line ''source_project_id'' l)"
  proof
    assume "\<exists>l \<in> set lines. field_line ''source_project_id'' l"
    then obtain n d b where nd: "(n, d) \<in> set ?sdc" and b: "source_dataset_lines n d = Inr b"
      and "\<exists>l \<in> set b. field_line ''source_project_id'' l"
      unfolding source_datasets_lines_ex [OF lines] by auto
    with source_dataset_block(1) [OF b] have "source_project_id d \<noteq> None" by simp
    with entries [OF nd] show False by simp
  qed
  have no_where: "\<not> (\<exists>l \<in> set lines. field_line ''additional_where'' l)"
  proof
    assume "\<exists>l \<in> set lines. field_line ''additional_where'' l"
    then obtain n d b where nd: "(n, d) \<in> set ?sdc" and b: "source_dataset_lines n d = Inr b"
      and "\<exists>l \<in> set b. field_line ''additional_where'' l"
      unfolding source_datasets_lines_ex [OF lines] by auto
    with source_dataset_block(2) [OF b] obtain ts k t w where
      "tables d = Some ts" "(k, t) \<in> set ts" "additional_where t = Some w" "w \<noteq> []"
      by auto
    with entries [OF nd] show False by auto
  qed
  from entries have "\<forall>(n, d) \<in> set ?sdc.
        source_project_id d = None \<and>
        (\<exists>ts. tables d = Some ts \<and>
           (\<forall>(k, t) \<in> set ts.
              additional_where t = Some [] \<and>
              table_description t = Some (k @ '' filtered view'') \<and>
              ''        description     = \"'' @ k @ '' filtered view\"'' \<in> set lines))"
    by blast
  with sdc lines all_lines pre no_proj no_where show ?thesis
    by blast
qed

theorem assembled_sources_witness:
  "main_assemble session_default =
     Inr \<lparr>run_client_name = ''Acme Co'',
          run_global_filters = [(''status'', [''active'', ''done''])],
          run_config =
            \<lparr>project_id = Some ''proj'',
             region = Some ''asia-northeast1'',
             view_prefix = Some ''filtered_'',
             output_datasets_config =
               Some [(''acme_co'', output_dataset_entry ''acme_co'' ''Acme Co'' 18)],
             source_datasets_config =
               Some (generate_source_datasets_config [(''status'', [''active'', ''done''])]
                       ''acme_co'')\<rparr>,
          run_stdin = []\<rparr> \<and>
   (\<exists>lines.
      source_datasets_lines
        (generate_source_datasets_config [(''status'', [''active'', ''done''])] ''acme_co'')
      = Inr lines \<and>
      ''        description     = \"orders filtered view\"'' \<in> set lines \<and>
      ''        description     = \"invoices filtered view\"'' \<in> set lines \<and>
      ''    source_project_id  = \"\"'' \<notin> set lines \<and>
      ''        additional_where = \"\"'' \<notin> set lines)"
proof -
  from assembled_sources [OF session_default_run] obtain sdc lines where
    sdc: "sdc = generate_source_datasets_config [(''status'', [''active'', ''done''])] ''acme_co''"
    and ent: "\<forall>(n, d) \<in> set sdc.
        source_project_id d = None \<and>
        (\<exists>ts. tables d = Some ts \<and>
           (\<forall>(k, t) \<in> set ts.
              additional_where t = Some [] \<and>
              table_description t = Some (k @ '' filtered view'') \<and>
              ''        description     = \"'' @ k @ '' filtered view\"'' \<in> set lines))"
    and lines: "source_datasets_lines sdc = Inr lines"
    and none: "\<forall>l \<in> set lines.
        \<not> field_line ''source_project_id'' l \<and> \<not> field_line ''additional_where'' l"
    by auto
  from ent have "''        description     = \"orders filtered view\"'' \<in> set lines"
    and "''        description     = \"invoices filtered view\"'' \<in> set lines"
    unfolding sdc by (simp_all add: generate_source_datasets_config_def predefined_structure_def)
  moreover from none have "''    source_project_id  = \"\"'' \<notin> set lines"
    and "''        additional_where = \"\"'' \<notin> set lines"
    by (auto simp: field_line_def)
  ultimately show ?thesis
    using lines session_default_run unfolding sdc by simp
qed

text \<open>The source datasets depend on the global filters through their lookups only.\<close>

lemma has_values_cong: "map_of gf1 = map_of gf2 \<Longrightarrow> has_values gf1 = has_values gf2"
  by (auto simp: has_values_def fun_eq_iff)

lemma get_table_filter_columns_cong:
  "map_of gf1 = map_of gf2 \<Longrightarrow>
   get_table_filter_columns t gf1 = get_table_filter_columns t gf2"
  by (simp add: get_table_filter_columns_def filter_loop_eq has_values_cong [of gf1 gf2])

lemma tables_loop_cong:
  "map_of gf1 = map_of gf2 \<Longrightarrow> tables_loop gf1 ts acc = tables_loop gf2 ts acc"
  by (induction ts arbitrary: acc) (simp_all add: get_table_filter_columns_cong [of gf1 gf2])

lemma datasets_loop_cong:
  "map_of gf1 = map_of gf2 \<Longrightarrow> datasets_loop gf1 ck ps acc = datasets_loop gf2 ck ps acc"
proof (induction ps arbitrary: acc)
  case Nil
  show ?case by simp
next
  case (Cons p ps)
  obtain name cfg where p: "p = (name, cfg)" by (cases p)
  from Cons show ?case
    unfolding p by (simp add: tables_loop_cong [of gf1 gf2])
qed

lemma generate_source_datasets_config_cong:
  "map_of gf1 = map_of gf2 \<Longrightarrow>
   generate_source_datasets_config gf1 ck = generate_source_datasets_config gf2 ck"
  unfolding generate_source_datasets_config_def by (rule datasets_loop_cong)

lemma main_assemble_sources:
  assumes "main_assemble ls = Inr r"
  shows "source_datasets_config (run_config r) =
     Some (generate_source_datasets_config (run_global_filters r)
             (replace CHR ''-'' CHR ''_''
                (replace CHR '' '' CHR ''_'' (lower (run_client_name r)))))"
  using assms by (rule main_assemble_cases) simp

lemma generate_tfvars_content_ok:
  "(\<exists>s. generate_tfvars_content cfg = Inr s) \<longleftrightarrow> renderable_config cfg"
  using generate_tfvars_lines_result [of cfg]
  by (cases "generate_tfvars_lines cfg") (auto simp: generate_tfvars_content_def)

lemma session_typed_run:
  "main_assemble session_typed =
     Inr \<lparr>run_client_name = ''Acme Co'',
          run_global_filters = [(''status'', [''active'', ''done''])],
          run_config =
            \<lparr>project_id = Some ''proj'',
             region = Some ''asia-northeast1'',
             view_prefix = Some ''filtered_'',
             output_datasets_config =
               Some [(''acme_co'', output_dataset_entry ''acme_co'' ''Acme Co'' 18)],
             source_datasets_config =
               Some (generate_source_datasets_config [(''status'', [''active'', ''done''])]
                       ''acme_co'')\<rparr>,
          run_stdin = []\<rparr>"
  by (simp add: main_assemble_def session_typed_def string_ops Let_def
      collect_global_filter_values_def filter_column_names_def months_back_input_def
      py_int_18 add_output_datasets.simps)

text \<open>
  C7. Two runs of \<open>main\<close> that collect the same project id, region, view prefix, client
  name and output datasets, and global filters with the same value list for every column,
  render the same text, character for character, and do render one. Neither the model of
  \<open>main\<close> nor that of the renderer has an input beside the lines read and the
  configuration: the source reads no clock, draws no random number and iterates only over
  lists and insertion-ordered dicts.
\<close>

theorem runs_deterministic:
  "main_assemble ls1 = Inr r1 \<Longrightarrow> main_assemble ls2 = Inr r2 \<Longrightarrow>
   project_id (run_config r1) = project_id (run_config r2) \<Longrightarrow>
   region (run_config r1) = region (run_config r2) \<Longrightarrow>
   view_prefix (run_config r1) = view_prefix (run_config r2) \<Longrightarrow>
   run_client_name r1 = run_client_name r2 \<Longrightarrow>
   output_datasets_config (run_config r1) = output_datasets_config (run_config r2) \<Longrightarrow>
   map_of (run_global_filters r1) = map_of (run_global_filters r2) \<Longrightarrow>
   main_content ls1 = main_content ls2 \<and> (\<exists>s. main_content ls1 = Inr s)"
proof -
  assume r1: "main_assemble ls1 = Inr r1" and r2: "main_assemble ls2 = Inr r2"
    and same: "project_id (run_config r1) = project_id (run_config r2)"
      "region (run_config r1) = region (run_config r2)"
      "view_prefix (run_config r1) = view_prefix (run_config r2)"
      "output_datasets_config (run_config r1) = output_datasets_config (run_config r2)"
    and name: "run_client_name r1 = run_client_name r2"
    and gf: "map_of (run_global_filters r1) = map_of (run_global_filters r2)"
  have "source_datasets_config (run_config r1) = source_datasets_config (run_config r2)"
    unfolding main_assemble_sources [OF r1] main_assemble_sources [OF r2] name
    using generate_source_datasets_config_cong [OF gf] by simp
  with same have "run_config r1 = run_config r2"
    by (intro config.equality) simp_all
  with r1 r2 have eq: "main_content ls1 = main_content ls2"
    by (simp add: main_content_def)
  from main_assemble_renderable [OF r1] obtain s where "generate_tfvars_content (run_config r1) = Inr s"
    using generate_tfvars_content_ok [of "run_config r1"] by blast
  with r1 have "main_content ls1 = Inr s"
    by (simp add: main_content_def)
  with eq show ?thesis by blast
qed

theorem runs_deterministic_witness:
  "main_content session_default = main_content session_typed \<and>
   session_default \<noteq> session_typed \<and>
   (\<exists>s. main_content session_default = Inr s)"
proof -
  have "session_default \<noteq> session_typed"
    by (simp add: session_default_def session_typed_def)
  moreover have "main_content session_default = main_content session_typed \<and>
      (\<exists>s. main_content session_default = Inr s)"
    by (rule runs_deterministic [OF session_default_run session_typed_run]) simp_all
  ultimately show ?thesis by blast
qed

section \<open>The statements of the renderer\<close>
























end
